theory Spec2Isabelle
  imports Main "HOL-Library.AList" "HOL-Library.Multiset"
begin

section \<open>Data model\<close>

text \<open>
  The repository holds three variants of the backlink scan function:
  \<^item> the first variant, \<^verbatim>\<open>src/netlify/functions/scan-backlinks.js\<close> lines 1-193
    (suffix \<open>_v1\<close>): aggregation only, no liveness probe;
  \<^item> the second variant, the same file from line 194 on (suffix \<open>_v2\<close>): aggregation,
    \<^verbatim>\<open>filterDeadPages\<close> and \<^verbatim>\<open>checkUrlStatus\<close> with a GET fallback;
  \<^item> the public variant, \<^verbatim>\<open>src/public/netlify/functions/scan-backlinks.js\<close>
    (suffix \<open>_v3\<close>): rate limiter, aggregation and probe inside \<^verbatim>\<open>callDataForSEO\<close>.

  Strings are byte lists. A field of a provider record that is absent reads as
  \<^verbatim>\<open>undefined\<close> in the source and is \<open>None\<close> here; a present field is a string
  (a number for the rank). Counts are naturals: the source only increments them from 0.
\<close>

record edge =
  url_to :: "string option"
  url_from :: "string option"
  domain_from :: "string option"
  domain_from_rank :: "int option"

record referrer =
  ref_domain :: "string option"
  ref_url :: "string option"
  domain_rank :: int
  backlinks :: nat

record aggregate =
  dead_page :: "string option"
  target_url :: "string option"
  backlink_count :: nat
  referring_domains :: "string option list"
  top_referrers :: "referrer list"
  status_code :: "int option"

text \<open>
  What \<^verbatim>\<open>new URL(s)\<close> yields is the platform's business: the parser is a parameter
  of every function that calls it. \<open>None\<close> is the \<^verbatim>\<open>TypeError\<close> it throws.
\<close>

record parsed_url =
  protocol :: string
  hostname :: string
  pathname :: string
  search :: string

type_synonym url_parser = "string \<Rightarrow> parsed_url option"

datatype js_error = TypeError | SyntaxError

subsection \<open>JavaScript values and plain objects used as dictionaries\<close>

definition truthy :: "string option \<Rightarrow> bool" where
  "truthy v = (case v of None \<Rightarrow> False | Some s \<Rightarrow> s \<noteq> [])"

text \<open>\<^verbatim>\<open>String(v)\<close>: how a value becomes a property key or the argument of \<^verbatim>\<open>new URL\<close>.\<close>

definition to_js_string :: "string option \<Rightarrow> string" where
  "to_js_string v = (case v of None \<Rightarrow> ''undefined'' | Some s \<Rightarrow> s)"

definition new_URL :: "url_parser \<Rightarrow> string option \<Rightarrow> parsed_url option" where
  "new_URL P v = P (to_js_string v)"

text \<open>
  \<^verbatim>\<open>groupedByTarget = {}\<close> is a plain object: its own properties, in creation order,
  are an association list. A read \<^verbatim>\<open>groupedByTarget[k]\<close> that finds no own property
  falls through to \<^verbatim>\<open>Object.prototype\<close>, whose members are truthy values that are
  not accumulators.
\<close>

type_synonym 'a js_object = "(string \<times> 'a) list"

definition object_prototype_keys :: "string list" where
  "object_prototype_keys =
    [''constructor'', ''__proto__'', ''hasOwnProperty'', ''isPrototypeOf'',
     ''propertyIsEnumerable'', ''toLocaleString'', ''toString'', ''valueOf'',
     ''__defineGetter__'', ''__defineSetter__'', ''__lookupGetter__'', ''__lookupSetter__'']"

datatype 'a property = Own 'a | Inherited | Missing

definition obj_get :: "'a js_object \<Rightarrow> string \<Rightarrow> 'a property" where
  "obj_get g k =
    (case map_of g k of
       Some v \<Rightarrow> Own v
     | None \<Rightarrow> if k \<in> set object_prototype_keys then Inherited else Missing)"

text \<open>
  \<^verbatim>\<open>Object.keys\<close> and \<^verbatim>\<open>Object.values\<close> list array-index keys first, in
  ascending numeric order, then the other keys in creation order.
\<close>

definition is_digit :: "char \<Rightarrow> bool" where
  "is_digit c = (48 \<le> (of_char c :: nat) \<and> (of_char c :: nat) \<le> 57)"

definition decimal_val :: "string \<Rightarrow> nat" where
  "decimal_val s = foldl (\<lambda>n c. 10 * n + ((of_char c :: nat) - 48)) 0 s"

definition is_array_index :: "string \<Rightarrow> bool" where
  "is_array_index k =
    (k \<noteq> [] \<and> list_all is_digit k \<and> (k = ''0'' \<or> hd k \<noteq> CHR ''0'')
     \<and> decimal_val k < 2 ^ 32 - 1)"

definition object_entries :: "'a js_object \<Rightarrow> (string \<times> 'a) list" where
  "object_entries g =
    sort_key (\<lambda>kv. decimal_val (fst kv)) (filter (\<lambda>kv. is_array_index (fst kv)) g)
    @ filter (\<lambda>kv. \<not> is_array_index (fst kv)) g"

definition object_values :: "'a js_object \<Rightarrow> 'a list" where
  "object_values g = map snd (object_entries g)"

section \<open>Target aggregation\<close>

definition fresh_aggregate :: "string option \<Rightarrow> string option \<Rightarrow> aggregate" where
  "fresh_aggregate targetPath targetUrl =
    \<lparr>dead_page = targetPath, target_url = targetUrl, backlink_count = 0,
     referring_domains = [], top_referrers = [], status_code = None\<rparr>"

definition rank_or_zero :: "int option \<Rightarrow> int" where
  "rank_or_zero r = (case r of None \<Rightarrow> 0 | Some n \<Rightarrow> n)"

definition target_path :: "url_parser \<Rightarrow> string option \<Rightarrow> string option" where
  "target_path P targetUrl =
    (case new_URL P targetUrl of Some u \<Rightarrow> Some (pathname u) | None \<Rightarrow> targetUrl)"

subsection \<open>First variant (lines 122-160)\<close>

definition push_v1 :: "edge \<Rightarrow> aggregate \<Rightarrow> aggregate" where
  "push_v1 link a =
    (let a1 = a\<lparr>backlink_count := backlink_count a + 1\<rparr>;
         a2 = (if domain_from link \<notin> set (referring_domains a1)
               then a1\<lparr>referring_domains := referring_domains a1 @ [domain_from link]\<rparr>
               else a1)
     in if length (top_referrers a2) < 10
        then a2\<lparr>top_referrers := top_referrers a2 @
               [\<lparr>ref_domain = domain_from link, ref_url = url_from link,
                 domain_rank = rank_or_zero (domain_from_rank link), backlinks = 1\<rparr>]\<rparr>
        else a2)"

text \<open>
  One pass of the loop body. When the key names a member of \<^verbatim>\<open>Object.prototype\<close> the
  guard \<^verbatim>\<open>!groupedByTarget[targetPath]\<close> is false, the increment lands on that member,
  and \<^verbatim>\<open>.referring_domains.indexOf\<close> throws on \<^verbatim>\<open>undefined\<close>.
\<close>

definition group_edge_v1 ::
  "url_parser \<Rightarrow> aggregate js_object \<Rightarrow> edge \<Rightarrow> js_error + aggregate js_object" where
  "group_edge_v1 P g link =
    (let targetUrl = url_to link;
         targetPath = target_path P targetUrl;
         k = to_js_string targetPath
     in case obj_get g k of
          Inherited \<Rightarrow> Inl TypeError
        | Missing \<Rightarrow> Inr (AList.update k (push_v1 link (fresh_aggregate targetPath targetUrl)) g)
        | Own a \<Rightarrow> Inr (AList.update k (push_v1 link a) g))"

subsection \<open>Second variant (lines 462-503)\<close>

definition push_v2 :: "edge \<Rightarrow> aggregate \<Rightarrow> aggregate" where
  "push_v2 link a =
    (let a1 = a\<lparr>backlink_count := backlink_count a + 1\<rparr>;
         domainFrom = domain_from link
     in if truthy domainFrom \<and> domainFrom \<notin> set (referring_domains a1)
        then
          (let a2 = a1\<lparr>referring_domains := referring_domains a1 @ [domainFrom]\<rparr>
           in if length (top_referrers a2) < 10
              then a2\<lparr>top_referrers := top_referrers a2 @
                     [\<lparr>ref_domain = domainFrom,
                       ref_url = Some (case url_from link of None \<Rightarrow> [] | Some s \<Rightarrow> s),
                       domain_rank = rank_or_zero (domain_from_rank link), backlinks = 1\<rparr>]\<rparr>
              else a2)
        else a1)"

text \<open>
  \<^verbatim>\<open>if (!targetUrl) continue;\<close> skips an edge with a missing or empty target. On an
  inherited key the test \<^verbatim>\<open>domainFrom && ...\<close> short-circuits for a falsy source
  domain; otherwise \<^verbatim>\<open>.referring_domains.includes\<close> throws.
\<close>

definition group_edge_v2 ::
  "url_parser \<Rightarrow> aggregate js_object \<Rightarrow> edge \<Rightarrow> js_error + aggregate js_object" where
  "group_edge_v2 P g link =
    (let targetUrl = url_to link
     in if \<not> truthy targetUrl then Inr g
        else
          (let targetPath = target_path P targetUrl;
               k = to_js_string targetPath
           in case obj_get g k of
                Inherited \<Rightarrow> if truthy (domain_from link) then Inl TypeError else Inr g
              | Missing \<Rightarrow>
                  Inr (AList.update k (push_v2 link (fresh_aggregate targetPath targetUrl)) g)
              | Own a \<Rightarrow> Inr (AList.update k (push_v2 link a) g)))"

text \<open>The \<^verbatim>\<open>for\<close> loop over the provider's items: the first throw leaves the loop.\<close>

fun group_edges ::
  "('g \<Rightarrow> edge \<Rightarrow> js_error + 'g) \<Rightarrow> 'g \<Rightarrow> edge list \<Rightarrow> js_error + 'g" where
  "group_edges step g [] = Inr g"
| "group_edges step g (link # links) =
    (case step g link of Inl e \<Rightarrow> Inl e | Inr g' \<Rightarrow> group_edges step g' links)"

definition groupedByTarget_v1 :: "url_parser \<Rightarrow> edge list \<Rightarrow> js_error + aggregate js_object" where
  "groupedByTarget_v1 P items = group_edges (group_edge_v1 P) [] items"

definition groupedByTarget_v2 :: "url_parser \<Rightarrow> edge list \<Rightarrow> js_error + aggregate js_object" where
  "groupedByTarget_v2 P items = group_edges (group_edge_v2 P) [] items"

subsection \<open>Public variant (lines 156-183)\<close>

text \<open>
  \<^verbatim>\<open>new URL(targetUrl).pathname\<close> stands outside any \<^verbatim>\<open>try\<close> of the loop: a parse
  failure throws out of the loop. \<^verbatim>\<open>referring_domains\<close> is a \<^verbatim>\<open>Set\<close>, kept here
  as the list of its members in insertion order.
\<close>

definition push_v3 :: "edge \<Rightarrow> aggregate \<Rightarrow> aggregate" where
  "push_v3 link a =
    (let a1 = a\<lparr>backlink_count := backlink_count a + 1\<rparr>;
         a2 = a1\<lparr>referring_domains :=
                (if domain_from link \<in> set (referring_domains a1) then referring_domains a1
                 else referring_domains a1 @ [domain_from link])\<rparr>
     in if length (top_referrers a2) < 10
        then a2\<lparr>top_referrers := top_referrers a2 @
               [\<lparr>ref_domain = domain_from link, ref_url = url_from link,
                 domain_rank = rank_or_zero (domain_from_rank link), backlinks = 1\<rparr>]\<rparr>
        else a2)"

definition group_edge_v3 ::
  "url_parser \<Rightarrow> aggregate js_object \<Rightarrow> edge \<Rightarrow> js_error + aggregate js_object" where
  "group_edge_v3 P g link =
    (let targetUrl = url_to link
     in case new_URL P targetUrl of
          None \<Rightarrow> Inl TypeError
        | Some u \<Rightarrow>
            (let targetPath = pathname u
             in case obj_get g targetPath of
                  Inherited \<Rightarrow> Inl TypeError
                | Missing \<Rightarrow>
                    Inr (AList.update targetPath
                          (push_v3 link (fresh_aggregate (Some targetPath) targetUrl)) g)
                | Own a \<Rightarrow> Inr (AList.update targetPath (push_v3 link a) g)))"

definition groupedByTarget_v3 :: "url_parser \<Rightarrow> edge list \<Rightarrow> js_error + aggregate js_object" where
  "groupedByTarget_v3 P items = group_edges (group_edge_v3 P) [] items"

section \<open>Sorting and the provider call\<close>

text \<open>
  \<^verbatim>\<open>Array.prototype.sort\<close> with a comparator is a stable sort. Insertion from the right
  computes its result: an element goes in front of the first element it does not have to
  follow.
\<close>

fun insert_by :: "('a \<Rightarrow> 'a \<Rightarrow> int) \<Rightarrow> 'a \<Rightarrow> 'a list \<Rightarrow> 'a list" where
  "insert_by cmp x [] = [x]"
| "insert_by cmp x (y # ys) = (if cmp x y \<le> 0 then x # y # ys else y # insert_by cmp x ys)"

definition js_sort :: "('a \<Rightarrow> 'a \<Rightarrow> int) \<Rightarrow> 'a list \<Rightarrow> 'a list" where
  "js_sort cmp xs = foldr (insert_by cmp) xs []"

text \<open>
  The records of \<^verbatim>\<open>results\<close>: an accumulator with its \<^verbatim>\<open>referring_domains\<close> array
  removed and the count put in its place (\<^verbatim>\<open>referring_domains_count\<close>; in the public
  variant the count is stored under \<^verbatim>\<open>referring_domains\<close> itself).
\<close>

record target_item =
  item_dead_page :: "string option"
  item_target_url :: "string option"
  item_backlink_count :: nat
  item_top_referrers :: "referrer list"
  item_status_code :: "int option"
  referring_domains_count :: nat

definition to_item :: "aggregate \<Rightarrow> target_item" where
  "to_item a =
    \<lparr>item_dead_page = dead_page a, item_target_url = target_url a,
     item_backlink_count = backlink_count a, item_top_referrers = top_referrers a,
     item_status_code = status_code a,
     referring_domains_count = length (referring_domains a)\<rparr>"

text \<open>\<^verbatim>\<open>(a, b) => b.backlink_count - a.backlink_count\<close>\<close>

definition by_backlinks_desc :: "target_item \<Rightarrow> target_item \<Rightarrow> int" where
  "by_backlinks_desc a b = int (item_backlink_count b) - int (item_backlink_count a)"

text \<open>
  What the provider call delivers before the grouping loop runs: a transport error, a
  body that does not parse, a payload with a status other than 20000 (and its message),
  or the list of backlink items.
\<close>

datatype provider_reply =
  ConnectionFailed
  | Unparseable
  | UpstreamRejected "string option"
  | Items "edge list"

datatype api_result = ApiError string | ApiResults "target_item list"

definition callDataForSEO ::
  "(edge list \<Rightarrow> js_error + aggregate js_object) \<Rightarrow> provider_reply \<Rightarrow> api_result" where
  "callDataForSEO grouped reply =
    (case reply of
       ConnectionFailed \<Rightarrow> ApiError ''Failed to connect to API''
     | Unparseable \<Rightarrow> ApiError ''Failed to parse API response''
     | UpstreamRejected m \<Rightarrow> ApiError (if truthy m then to_js_string m else ''API error'')
     | Items items \<Rightarrow>
         (case grouped items of
            Inl e \<Rightarrow> ApiError ''Failed to parse API response''
          | Inr g \<Rightarrow>
              ApiResults (take 1000 (js_sort by_backlinks_desc (map to_item (object_values g))))))"

definition callDataForSEO_v1 :: "url_parser \<Rightarrow> provider_reply \<Rightarrow> api_result" where
  "callDataForSEO_v1 P reply = callDataForSEO (groupedByTarget_v1 P) reply"

definition callDataForSEO_v2 :: "url_parser \<Rightarrow> provider_reply \<Rightarrow> api_result" where
  "callDataForSEO_v2 P reply = callDataForSEO (groupedByTarget_v2 P) reply"

section \<open>Liveness probe\<close>

text \<open>
  The network is a parameter. \<open>accepts\<close> says whether \<^verbatim>\<open>request(options)\<close> returns a
  request object for a given host and path (it throws synchronously otherwise, as Node
  does for a path with unescaped characters); \<open>outcome\<close> is the one event a created
  request ends in: the response callback, \<^verbatim>\<open>'error'\<close> or \<^verbatim>\<open>'timeout'\<close>.
\<close>

datatype http_method = HEAD | GET

record request =
  req_secure :: bool
  req_hostname :: string
  req_path :: string
  req_method :: http_method
  req_timeout :: nat
  req_user_agent :: "string option"

datatype req_outcome = Response int | TransportError | Timeout

record network =
  accepts :: "string \<Rightarrow> string \<Rightarrow> bool"
  outcome :: "request \<Rightarrow> req_outcome"

text \<open>
  How the promise of one probe settles, and the requests issued until then. A throw
  inside the promise executor rejects the promise.
\<close>

datatype settlement = Resolved int | Rejected

record probe_run =
  settled :: settlement
  issued :: "request list"

text \<open>
  Second variant, lines 358-409. The \<^verbatim>\<open>'timeout'\<close> handler of the HEAD request
  resolves 0 at once; only its \<^verbatim>\<open>'error'\<close> handler issues the GET request, made from
  the same options.
\<close>

definition head_options_v2 :: "parsed_url \<Rightarrow> request" where
  "head_options_v2 parsedUrl =
    \<lparr>req_secure = (protocol parsedUrl = ''https:''),
     req_hostname = hostname parsedUrl,
     req_path = pathname parsedUrl @ search parsedUrl,
     req_method = HEAD, req_timeout = 8000,
     req_user_agent =
       Some ''Mozilla/5.0 (compatible; ScreamingFixes/1.0; +https://screamingfixes.com)''\<rparr>"

definition checkUrlStatus_v2 :: "url_parser \<Rightarrow> network \<Rightarrow> string \<Rightarrow> probe_run" where
  "checkUrlStatus_v2 P net url =
    (case P url of
       None \<Rightarrow> \<lparr>settled = Resolved 0, issued = []\<rparr>
     | Some parsedUrl \<Rightarrow>
         (let options = head_options_v2 parsedUrl
          in if \<not> accepts net (req_hostname options) (req_path options)
             then \<lparr>settled = Rejected, issued = []\<rparr>
             else
               (case outcome net options of
                  Response statusCode \<Rightarrow> \<lparr>settled = Resolved statusCode, issued = [options]\<rparr>
                | TransportError \<Rightarrow>
                    (let getReq = options\<lparr>req_method := GET\<rparr>
                     in \<lparr>settled =
                           (case outcome net getReq of
                              Response statusCode \<Rightarrow> Resolved statusCode
                            | TransportError \<Rightarrow> Resolved 0
                            | Timeout \<Rightarrow> Resolved 0),
                         issued = [options, getReq]\<rparr>)
                | Timeout \<Rightarrow> \<lparr>settled = Resolved 0, issued = [options]\<rparr>)))"

text \<open>Public variant, lines 221-247: one \<^verbatim>\<open>try\<close> around the whole executor, no fallback.\<close>

definition head_options_v3 :: "parsed_url \<Rightarrow> request" where
  "head_options_v3 urlObj =
    \<lparr>req_secure = True, req_hostname = hostname urlObj,
     req_path = pathname urlObj @ search urlObj,
     req_method = HEAD, req_timeout = 5000, req_user_agent = None\<rparr>"

definition checkUrlStatus_v3 :: "url_parser \<Rightarrow> network \<Rightarrow> string option \<Rightarrow> probe_run" where
  "checkUrlStatus_v3 P net url =
    (case new_URL P url of
       None \<Rightarrow> \<lparr>settled = Resolved 0, issued = []\<rparr>
     | Some urlObj \<Rightarrow>
         (let options = head_options_v3 urlObj
          in if \<not> accepts net (req_hostname options) (req_path options)
             then \<lparr>settled = Resolved 0, issued = []\<rparr>
             else
               (case outcome net options of
                  Response statusCode \<Rightarrow> \<lparr>settled = Resolved statusCode, issued = [options]\<rparr>
                | TransportError \<Rightarrow> \<lparr>settled = Resolved 0, issued = [options]\<rparr>
                | Timeout \<Rightarrow> \<lparr>settled = Resolved 0, issued = [options]\<rparr>)))"

section \<open>Ranking\<close>

subsection \<open>Second variant: \<^verbatim>\<open>filterDeadPages\<close> (lines 295-352)\<close>

record dead_page_record =
  dp_dead_page :: string
  dead_page_path :: string
  dp_status_code :: int
  dp_backlink_count :: nat
  dp_referring_domains :: nat
  dp_top_referrers :: "referrer list"

definition starts_with :: "string \<Rightarrow> string \<Rightarrow> bool" where
  "starts_with p s = (take (length p) s = p)"

definition url_to_check :: "string \<Rightarrow> target_item \<Rightarrow> string option" where
  "url_to_check site item =
    (let urlToCheck = (if truthy (item_target_url item) then item_target_url item
                       else item_dead_page item)
     in case urlToCheck of
          None \<Rightarrow> None
        | Some u \<Rightarrow>
            if u \<noteq> [] \<and> \<not> starts_with ''http'' u
            then Some (''https://'' @ site @ (if starts_with ''/'' u then [] else ''/'') @ u)
            else Some u)"

text \<open>
  The body of \<^verbatim>\<open>batch.map(async (item) => ...)\<close>: \<open>None\<close> is the \<^verbatim>\<open>null\<close> it
  returns, also when the awaited probe rejects or \<^verbatim>\<open>new URL(urlToCheck)\<close> throws
  inside the \<^verbatim>\<open>try\<close>.
\<close>

definition check_item ::
  "url_parser \<Rightarrow> (string \<Rightarrow> settlement) \<Rightarrow> string \<Rightarrow> target_item \<Rightarrow> dead_page_record option" where
  "check_item P probe site item =
    (case url_to_check site item of
       None \<Rightarrow> None
     | Some urlToCheck \<Rightarrow>
         if urlToCheck = [] then None
         else
           (case probe urlToCheck of
              Rejected \<Rightarrow> None
            | Resolved status \<Rightarrow>
                if status = 404 \<or> status = 410
                then
                  (case (if truthy (item_dead_page item) then item_dead_page item
                         else map_option pathname (P urlToCheck)) of
                     None \<Rightarrow> None
                   | Some path \<Rightarrow>
                       Some \<lparr>dp_dead_page = urlToCheck, dead_page_path = path,
                             dp_status_code = status,
                             dp_backlink_count = item_backlink_count item,
                             dp_referring_domains = referring_domains_count item,
                             dp_top_referrers = item_top_referrers item\<rparr>)
                else None))"

text \<open>
  The batch loop: \<^verbatim>\<open>for (let i = 0; i < urlsToCheck.length; i += batchSize)\<close>, each
  batch awaited with \<^verbatim>\<open>Promise.all\<close> (results in the order of the batch) and its
  non-null results pushed.
\<close>

function batch_loop ::
  "(target_item \<Rightarrow> dead_page_record option) \<Rightarrow> target_item list \<Rightarrow> nat \<Rightarrow>
   dead_page_record list \<Rightarrow> dead_page_record list" where
  "batch_loop chk urlsToCheck i deadPages =
    (if i < length urlsToCheck
     then batch_loop chk urlsToCheck (i + 10)
            (deadPages @ List.map_filter chk (take 10 (drop i urlsToCheck)))
     else deadPages)"
  by pat_completeness auto
termination
  by (relation "measure (\<lambda>(chk, urlsToCheck, i, deadPages). length urlsToCheck - i)") auto

declare batch_loop.simps [simp del]

definition by_dp_backlinks_desc :: "dead_page_record \<Rightarrow> dead_page_record \<Rightarrow> int" where
  "by_dp_backlinks_desc a b = int (dp_backlink_count b) - int (dp_backlink_count a)"

definition filterDeadPages ::
  "url_parser \<Rightarrow> (string \<Rightarrow> settlement) \<Rightarrow> target_item list \<Rightarrow> string \<Rightarrow> dead_page_record list" where
  "filterDeadPages P probe results site =
    (let maxChecks = 100;
         urlsToCheck = take maxChecks results;
         deadPages = batch_loop (check_item P probe site) urlsToCheck 0 []
     in js_sort by_dp_backlinks_desc deadPages)"

subsection \<open>Public variant: probe, filter, sort and slice inside \<^verbatim>\<open>callDataForSEO\<close>\<close>

definition mark_dead_v3 :: "aggregate \<Rightarrow> int \<Rightarrow> target_item" where
  "mark_dead_v3 item status =
    \<lparr>item_dead_page = dead_page item, item_target_url = target_url item,
     item_backlink_count = backlink_count item, item_top_referrers = top_referrers item,
     item_status_code = Some (if status = 0 then 404 else status),
     referring_domains_count = length (referring_domains item)\<rparr>"

fun probe_items_v3 ::
  "(string option \<Rightarrow> settlement) \<Rightarrow> aggregate list \<Rightarrow> target_item list \<Rightarrow>
   js_error + target_item list" where
  "probe_items_v3 probe [] results = Inr results"
| "probe_items_v3 probe (item # rest) results =
    (case probe (target_url item) of
       Rejected \<Rightarrow> Inl TypeError
     | Resolved status \<Rightarrow>
         if status = 404 \<or> status = 410 \<or> status = 0
         then probe_items_v3 probe rest (results @ [mark_dead_v3 item status])
         else probe_items_v3 probe rest results)"

definition callDataForSEO_v3 ::
  "url_parser \<Rightarrow> (string option \<Rightarrow> settlement) \<Rightarrow> provider_reply \<Rightarrow> api_result" where
  "callDataForSEO_v3 P probe reply =
    (case reply of
       ConnectionFailed \<Rightarrow> ApiError ''Failed to connect to API''
     | Unparseable \<Rightarrow> ApiError ''Failed to parse API response''
     | UpstreamRejected m \<Rightarrow> ApiError (if truthy m then to_js_string m else ''API error'')
     | Items links \<Rightarrow>
         (case groupedByTarget_v3 P links of
            Inl e \<Rightarrow> ApiError ''Failed to parse API response''
          | Inr g \<Rightarrow>
              (case probe_items_v3 probe (take 100 (object_values g)) [] of
                 Inl e \<Rightarrow> ApiError ''Failed to parse API response''
               | Inr results \<Rightarrow> ApiResults (take 1000 (js_sort by_backlinks_desc results)))))"

section \<open>The scan handler\<close>

subsection \<open>JSON values and \<^verbatim>\<open>JSON.stringify\<close>\<close>

datatype json =
  JNull
  | JBool bool
  | JNum int
  | JStr string
  | JArr "json list"
  | JObj "(string \<times> json) list"

text \<open>Integers print in decimal, most significant digit first.\<close>

definition digit_char :: "nat \<Rightarrow> char" where
  "digit_char d = char_of (48 + d)"

fun decimal_digits :: "nat \<Rightarrow> string \<Rightarrow> string" where
  "decimal_digits n acc =
    (if n < 10 then digit_char n # acc
     else decimal_digits (n div 10) (digit_char (n mod 10) # acc))"

declare decimal_digits.simps [simp del]

definition number_text :: "int \<Rightarrow> string" where
  "number_text i =
    (if 0 \<le> i then decimal_digits (nat i) [] else CHR ''-'' # decimal_digits (nat (- i)) [])"

definition hex_digit :: "nat \<Rightarrow> char" where
  "hex_digit n = (if n < 10 then digit_char n else char_of (87 + n))"

text \<open>The escapes of \<^verbatim>\<open>JSON.stringify\<close>: quote, backslash and the control characters.\<close>

definition escape_char :: "char \<Rightarrow> string" where
  "escape_char c =
    (let n = (of_char c :: nat)
     in if n = 34 then [CHR 0x5C, CHR 0x22]
        else if n = 92 then [CHR 0x5C, CHR 0x5C]
        else if n = 8 then [CHR 0x5C, CHR ''b'']
        else if n = 12 then [CHR 0x5C, CHR ''f'']
        else if n = 10 then [CHR 0x5C, CHR ''n'']
        else if n = 13 then [CHR 0x5C, CHR ''r'']
        else if n = 9 then [CHR 0x5C, CHR ''t'']
        else if n < 32 then [CHR 0x5C, CHR ''u'', CHR ''0'', CHR ''0'', hex_digit (n div 16), hex_digit (n mod 16)]
        else [c])"

definition quote :: "string \<Rightarrow> string" where
  "quote s = [CHR 0x22] @ concat (map escape_char s) @ [CHR 0x22]"

fun join_commas :: "string list \<Rightarrow> string" where
  "join_commas [] = []"
| "join_commas [x] = x"
| "join_commas (x # y # ys) = x @ '','' @ join_commas (y # ys)"

fun JSON_stringify :: "json \<Rightarrow> string" where
  "JSON_stringify JNull = ''null''"
| "JSON_stringify (JBool b) = (if b then ''true'' else ''false'')"
| "JSON_stringify (JNum n) = number_text n"
| "JSON_stringify (JStr s) = quote s"
| "JSON_stringify (JArr xs) = ''['' @ join_commas (map JSON_stringify xs) @ '']''"
| "JSON_stringify (JObj kvs) =
    ''{'' @ join_commas (map (\<lambda>kv. quote (fst kv) @ '':'' @ JSON_stringify (snd kv)) kvs) @ ''}''"

declare JSON_stringify.simps [simp del]

text \<open>An object literal: a property whose value is \<^verbatim>\<open>undefined\<close> is left out by
  \<^verbatim>\<open>JSON.stringify\<close>.\<close>

definition js_fields :: "(string \<times> json option) list \<Rightarrow> json" where
  "js_fields kvs = JObj (List.map_filter (\<lambda>kv. map_option (Pair (fst kv)) (snd kv)) kvs)"

definition referrer_json :: "referrer \<Rightarrow> json" where
  "referrer_json r =
    js_fields
      [(''domain'', map_option JStr (ref_domain r)),
       (''url'', map_option JStr (ref_url r)),
       (''domain_rank'', Some (JNum (domain_rank r))),
       (''backlinks'', Some (JNum (int (backlinks r))))]"

definition status_json :: "int option \<Rightarrow> json" where
  "status_json c = (case c of None \<Rightarrow> JNull | Some n \<Rightarrow> JNum n)"

definition item_json :: "target_item \<Rightarrow> json" where
  "item_json item =
    js_fields
      [(''dead_page'', map_option JStr (item_dead_page item)),
       (''target_url'', map_option JStr (item_target_url item)),
       (''backlink_count'', Some (JNum (int (item_backlink_count item)))),
       (''top_referrers'', Some (JArr (map referrer_json (item_top_referrers item)))),
       (''status_code'', Some (status_json (item_status_code item))),
       (''referring_domains_count'', Some (JNum (int (referring_domains_count item))))]"

definition item_json_v3 :: "target_item \<Rightarrow> json" where
  "item_json_v3 item =
    js_fields
      [(''dead_page'', map_option JStr (item_dead_page item)),
       (''target_url'', map_option JStr (item_target_url item)),
       (''backlink_count'', Some (JNum (int (item_backlink_count item)))),
       (''referring_domains'', Some (JNum (int (referring_domains_count item)))),
       (''top_referrers'', Some (JArr (map referrer_json (item_top_referrers item)))),
       (''status_code'', Some (status_json (item_status_code item)))]"

definition dead_page_json :: "dead_page_record \<Rightarrow> json" where
  "dead_page_json d =
    JObj
      [(''dead_page'', JStr (dp_dead_page d)),
       (''dead_page_path'', JStr (dead_page_path d)),
       (''status_code'', JNum (dp_status_code d)),
       (''backlink_count'', JNum (int (dp_backlink_count d))),
       (''referring_domains'', JNum (int (dp_referring_domains d))),
       (''top_referrers'', JArr (map referrer_json (dp_top_referrers d)))]"

subsection \<open>Events, responses and the environment of one invocation\<close>

record event =
  httpMethod :: string
  body :: "string option"

record response =
  statusCode :: nat
  headers :: "(string \<times> string) list"
  resp_body :: string

definition cors_headers :: "(string \<times> string) list" where
  "cors_headers =
    [(''Access-Control-Allow-Origin'', ''*''),
     (''Access-Control-Allow-Headers'', ''Content-Type''),
     (''Access-Control-Allow-Methods'', ''POST, OPTIONS''),
     (''Content-Type'', ''application/json'')]"

text \<open>
  What can throw inside the handler's \<^verbatim>\<open>try\<close>: \<^verbatim>\<open>JSON.parse\<close> on a body that is
  not JSON, the destructuring of \<^verbatim>\<open>null\<close>, and \<^verbatim>\<open>domain.toLowerCase()\<close> on a
  value that is not a string.
\<close>

datatype fault = BodyNotJson | BodyIsNull | DomainNotString

text \<open>
  The platform and the world of one invocation: \<^verbatim>\<open>JSON.parse\<close> (\<open>None\<close> when it
  throws), the message of each thrown error, the two environment variables, the
  provider's reply to the request for a domain, the URL parser, the network, and the
  clock read at the rate-limit check and when the reply is built.
\<close>

record scan_env =
  JSON_parse :: "string \<Rightarrow> json option"
  error_message :: "fault \<Rightarrow> string"
  DATAFORSEO_LOGIN :: "string option"
  DATAFORSEO_PASSWORD :: "string option"
  provider :: "string \<Rightarrow> provider_reply"
  URL_parse :: url_parser
  internet :: network
  now_at_check :: string
  now_at_reply :: string

definition json_truthy :: "json option \<Rightarrow> bool" where
  "json_truthy v =
    (case v of
       None \<Rightarrow> False
     | Some JNull \<Rightarrow> False
     | Some (JBool b) \<Rightarrow> b
     | Some (JNum n) \<Rightarrow> n \<noteq> 0
     | Some (JStr s) \<Rightarrow> s \<noteq> []
     | Some (JArr xs) \<Rightarrow> True
     | Some (JObj kvs) \<Rightarrow> True)"

text \<open>
  \<^verbatim>\<open>const { domain } = JSON.parse(event.body || '{}')\<close>: the parse throws on a body
  that is not JSON, the destructuring throws on \<^verbatim>\<open>null\<close>, and any other value that
  is not an object with a \<^verbatim>\<open>domain\<close> property leaves \<^verbatim>\<open>domain\<close> undefined.
\<close>

definition body_text :: "event \<Rightarrow> string" where
  "body_text ev = (if truthy (body ev) then to_js_string (body ev) else ''{}'')"

definition get_domain :: "json \<Rightarrow> json option" where
  "get_domain parsed = (case parsed of JObj kvs \<Rightarrow> map_of kvs ''domain'' | _ \<Rightarrow> None)"

definition request_domain :: "scan_env \<Rightarrow> event \<Rightarrow> fault + json option" where
  "request_domain env ev =
    (case JSON_parse env (body_text ev) of
       None \<Rightarrow> Inl BodyNotJson
     | Some parsed \<Rightarrow> if parsed = JNull then Inl BodyIsNull else Inr (get_domain parsed))"

text \<open>
  Lower case of the letters A to Z; every other byte stays as it is
  (\<^verbatim>\<open>toLowerCase\<close> also maps letters outside ASCII).
\<close>

definition to_lower :: "char \<Rightarrow> char" where
  "to_lower c =
    (let n = (of_char c :: nat) in if 65 \<le> n \<and> n \<le> 90 then char_of (n + 32) else c)"

text \<open>
  \<^verbatim>\<open>domain.toLowerCase().replace(/^https?:\/\//, '').replace(/^www\./, '')
  .replace(/\/$/, '').split('/')[0]\<close>, on ASCII.
\<close>

definition normalize_domain :: "string \<Rightarrow> string" where
  "normalize_domain d =
    (let s1 = map to_lower d;
         s2 = (if starts_with ''http://'' s1 then drop 7 s1
               else if starts_with ''https://'' s1 then drop 8 s1 else s1);
         s3 = (if starts_with ''www.'' s2 then drop 4 s2 else s2);
         s4 = (if s3 \<noteq> [] \<and> last s3 = CHR ''/'' then butlast s3 else s3)
     in takeWhile (\<lambda>c. c \<noteq> CHR ''/'') s4)"

text \<open>The normalization of a truthy \<^verbatim>\<open>domain\<close>: \<^verbatim>\<open>toLowerCase\<close> exists on strings only.\<close>

definition normalized :: "json option \<Rightarrow> fault + string" where
  "normalized domain =
    (case domain of Some (JStr d) \<Rightarrow> Inr (normalize_domain d) | _ \<Rightarrow> Inl DomainNotString)"

definition error_body :: "string \<Rightarrow> string" where
  "error_body msg = JSON_stringify (JObj [(''error'', JStr msg)])"

definition reply :: "nat \<Rightarrow> string \<Rightarrow> response" where
  "reply code text = \<lparr>statusCode = code, headers = cors_headers, resp_body = text\<rparr>"

definition configured :: "scan_env \<Rightarrow> bool" where
  "configured env = (truthy (DATAFORSEO_LOGIN env) \<and> truthy (DATAFORSEO_PASSWORD env))"

subsection \<open>First variant (lines 3-81)\<close>

definition try_scan_v1 :: "scan_env \<Rightarrow> event \<Rightarrow> fault + response" where
  "try_scan_v1 env ev =
    (case request_domain env ev of
       Inl thrown \<Rightarrow> Inl thrown
     | Inr domain \<Rightarrow>
         if \<not> json_truthy domain then Inr (reply 400 (error_body ''Domain is required''))
         else
           (case normalized domain of
              Inl thrown \<Rightarrow> Inl thrown
            | Inr normalizedDomain \<Rightarrow>
                if \<not> configured env then Inr (reply 500 (error_body ''API not configured''))
                else
                  (case callDataForSEO_v1 (URL_parse env) (provider env normalizedDomain) of
                     ApiError e \<Rightarrow> Inr (reply 500 (error_body e))
                   | ApiResults results \<Rightarrow>
                       Inr (reply 200
                         (JSON_stringify
                           (JObj [(''success'', JBool True),
                                  (''domain'', JStr normalizedDomain),
                                  (''scanned_at'', JStr (now_at_reply env)),
                                  (''results'', JArr (map item_json results))]))))))"

definition handler_v1 :: "scan_env \<Rightarrow> event \<Rightarrow> response" where
  "handler_v1 env ev =
    (if httpMethod ev = ''OPTIONS'' then reply 200 []
     else if httpMethod ev \<noteq> ''POST'' then reply 405 (error_body ''Method not allowed'')
     else
       (case try_scan_v1 env ev of
          Inr r \<Rightarrow> r
        | Inl error \<Rightarrow>
            reply 500 (error_body (''Internal server error: '' @ error_message env error))))"

subsection \<open>Second variant (lines 197-289)\<close>

definition try_scan_v2 :: "scan_env \<Rightarrow> event \<Rightarrow> fault + response" where
  "try_scan_v2 env ev =
    (case request_domain env ev of
       Inl thrown \<Rightarrow> Inl thrown
     | Inr domain \<Rightarrow>
         if \<not> json_truthy domain then Inr (reply 400 (error_body ''Domain is required''))
         else
           (case normalized domain of
              Inl thrown \<Rightarrow> Inl thrown
            | Inr normalizedDomain \<Rightarrow>
                if \<not> configured env then Inr (reply 500 (error_body ''API not configured''))
                else
                  (case callDataForSEO_v2 (URL_parse env) (provider env normalizedDomain) of
                     ApiError e \<Rightarrow> Inr (reply 500 (error_body e))
                   | ApiResults results \<Rightarrow>
                       (let deadPages =
                              filterDeadPages (URL_parse env)
                                (\<lambda>url. settled (checkUrlStatus_v2 (URL_parse env) (internet env) url))
                                results normalizedDomain
                        in Inr (reply 200
                             (JSON_stringify
                               (JObj [(''success'', JBool True),
                                      (''domain'', JStr normalizedDomain),
                                      (''scanned_at'', JStr (now_at_reply env)),
                                      (''results'', JArr (map dead_page_json deadPages)),
                                      (''debug'',
                                       JObj [(''total_urls_from_api'', JNum (int (length results))),
                                             (''urls_checked'', JNum (int (min (length results) 100))),
                                             (''dead_pages_found'', JNum (int (length deadPages)))])])))))))"

definition handler_v2 :: "scan_env \<Rightarrow> event \<Rightarrow> response" where
  "handler_v2 env ev =
    (if httpMethod ev = ''OPTIONS'' then reply 200 []
     else if httpMethod ev \<noteq> ''POST'' then reply 405 (error_body ''Method not allowed'')
     else
       (case try_scan_v2 env ev of
          Inr r \<Rightarrow> r
        | Inl error \<Rightarrow>
            reply 500 (error_body (''Internal server error: '' @ error_message env error))))"

subsection \<open>Public variant (lines 7-110), with the rate-limit cache\<close>

text \<open>
  \<^verbatim>\<open>rateLimitCache\<close> is a module-level \<^verbatim>\<open>Map\<close>: the handler takes its content and
  returns it updated. The check (line 53) only reads it; the mark (line 89) comes after
  the provider call has returned results.
\<close>

type_synonym rate_limit_cache = "string \<rightharpoonup> bool"

definition rate_limit_key :: "string \<Rightarrow> string \<Rightarrow> string" where
  "rate_limit_key normalizedDomain today = normalizedDomain @ ''-'' @ today"

definition today_of :: "string \<Rightarrow> string" where
  "today_of stamp = takeWhile (\<lambda>c. c \<noteq> CHR ''T'') stamp"

definition rate_limit_body :: string where
  "rate_limit_body =
    JSON_stringify
      (JObj [(''error'', JStr ''Rate limit exceeded''),
             (''message'', JStr ''Free scan limit reached for this domain. Try again tomorrow or add your own DataForSEO API key.''),
             (''next_scan_available'', JStr ''tomorrow'')])"

definition try_scan_v3 ::
  "scan_env \<Rightarrow> rate_limit_cache \<Rightarrow> event \<Rightarrow> fault + response \<times> rate_limit_cache" where
  "try_scan_v3 env rateLimitCache ev =
    (case request_domain env ev of
       Inl thrown \<Rightarrow> Inl thrown
     | Inr domain \<Rightarrow>
         if \<not> json_truthy domain
         then Inr (reply 400 (error_body ''Domain is required''), rateLimitCache)
         else
           (case normalized domain of
              Inl thrown \<Rightarrow> Inl thrown
            | Inr normalizedDomain \<Rightarrow>
                (let today = today_of (now_at_check env);
                     rateLimitKey = rate_limit_key normalizedDomain today
                 in if rateLimitCache rateLimitKey \<noteq> None
                    then Inr (reply 429 rate_limit_body, rateLimitCache)
                    else if \<not> configured env
                    then Inr (reply 500 (error_body ''API not configured''), rateLimitCache)
                    else
                      (case callDataForSEO_v3 (URL_parse env)
                              (\<lambda>url. settled (checkUrlStatus_v3 (URL_parse env) (internet env) url))
                              (provider env normalizedDomain) of
                         ApiError e \<Rightarrow> Inr (reply 500 (error_body e), rateLimitCache)
                       | ApiResults results \<Rightarrow>
                           Inr (reply 200
                                 (JSON_stringify
                                   (JObj [(''success'', JBool True),
                                          (''domain'', JStr normalizedDomain),
                                          (''scanned_at'', JStr (now_at_reply env)),
                                          (''results'', JArr (map item_json_v3 results))])),
                                rateLimitCache(rateLimitKey \<mapsto> True))))))"

definition handler_v3 :: "scan_env \<Rightarrow> rate_limit_cache \<Rightarrow> event \<Rightarrow> response \<times> rate_limit_cache" where
  "handler_v3 env rateLimitCache ev =
    (if httpMethod ev = ''OPTIONS'' then (reply 200 [], rateLimitCache)
     else if httpMethod ev \<noteq> ''POST''
     then (reply 405 (error_body ''Method not allowed''), rateLimitCache)
     else
       (case try_scan_v3 env rateLimitCache ev of
          Inr r \<Rightarrow> r
        | Inl error \<Rightarrow> (reply 500 (error_body ''Internal server error''), rateLimitCache)))"

section \<open>Notions used in the statements\<close>

definition grouping_key :: "url_parser \<Rightarrow> edge \<Rightarrow> string" where
  "grouping_key P link = to_js_string (target_path P (url_to link))"

definition counted_v2 :: "url_parser \<Rightarrow> edge \<Rightarrow> bool" where
  "counted_v2 P link =
    (truthy (url_to link) \<and> grouping_key P link \<notin> set object_prototype_keys)"

definition total_backlinks :: "aggregate js_object \<Rightarrow> nat" where
  "total_backlinks g = sum_list (map (\<lambda>kv. backlink_count (snd kv)) g)"

text \<open>
  The normalized domain a request asks to scan, when the request gets as far as the
  rate limiter: a POST whose body parses to an object with a non-empty string
  \<^verbatim>\<open>domain\<close>.
\<close>

definition scanned_domain :: "scan_env \<Rightarrow> event \<Rightarrow> string option" where
  "scanned_domain env ev =
    (if httpMethod ev \<noteq> ''POST'' then None
     else
       (case request_domain env ev of
          Inl thrown \<Rightarrow> None
        | Inr domain \<Rightarrow>
            if \<not> json_truthy domain then None
            else (case normalized domain of Inl thrown \<Rightarrow> None | Inr d \<Rightarrow> Some d)))"

text \<open>A text that \<^verbatim>\<open>JSON.stringify\<close> prints for an object.\<close>

definition json_object_text :: "string \<Rightarrow> bool" where
  "json_object_text t = (\<exists>kvs. t = JSON_stringify (JObj kvs))"

definition plain_keys :: "'a js_object \<Rightarrow> bool" where
  "plain_keys g = list_all (\<lambda>kv. fst kv \<notin> set object_prototype_keys) g"

text \<open>
  What the second variant keeps true of every accumulator: the referring domains are
  distinct and the top referrers are the first ten of them, in order.
\<close>

definition referrers_ok :: "aggregate \<Rightarrow> bool" where
  "referrers_ok a =
    (distinct (referring_domains a) \<and>
     map ref_domain (top_referrers a) = take 10 (referring_domains a))"

text \<open>
  The contract of \<^verbatim>\<open>Array.prototype.sort\<close> for the comparator
  \<^verbatim>\<open>(a, b) => k(b) - k(a)\<close>: the result is a permutation of the input, non-increasing
  in \<open>k\<close>, and elements with equal \<open>k\<close> keep their order. The engine is free in how it
  gets there.
\<close>

definition sort_contract :: "('a \<Rightarrow> nat) \<Rightarrow> 'a list \<Rightarrow> 'a list \<Rightarrow> bool" where
  "sort_contract k xs ys =
    (mset ys = mset xs \<and> sorted_wrt (\<lambda>a b. k b \<le> k a) ys \<and>
     (\<forall>c. filter (\<lambda>x. k x = c) ys = filter (\<lambda>x. k x = c) xs))"

text \<open>
  Aggregation followed by ranking in the second variant, as a function:
  \<^verbatim>\<open>callDataForSEO\<close>, then \<^verbatim>\<open>filterDeadPages\<close>, then \<^verbatim>\<open>JSON.stringify\<close> of the
  \<^verbatim>\<open>results\<close> array; or the error of the provider call.
\<close>

definition scan_output_v2 ::
  "url_parser \<Rightarrow> (string \<Rightarrow> settlement) \<Rightarrow> string \<Rightarrow> edge list \<Rightarrow> string + string" where
  "scan_output_v2 P probe site items =
    (case callDataForSEO_v2 P (Items items) of
       ApiError e \<Rightarrow> Inl e
     | ApiResults results \<Rightarrow>
         Inr (JSON_stringify (JArr (map dead_page_json (filterDeadPages P probe results site)))))"

text \<open>
  One run of the same steps, as a relation between input and output: the grouping loop,
  \<^verbatim>\<open>Object.values\<close>, the batch loop and \<^verbatim>\<open>JSON.stringify\<close> as the source has them, and
  each of the two sorts replaced by any result its contract admits.
\<close>

definition scan_run_v2 ::
  "url_parser \<Rightarrow> (string \<Rightarrow> settlement) \<Rightarrow> string \<Rightarrow> edge list \<Rightarrow> string + string \<Rightarrow> bool" where
  "scan_run_v2 P probe site items out =
    (case groupedByTarget_v2 P items of
       Inl e \<Rightarrow> out = Inl ''Failed to parse API response''
     | Inr g \<Rightarrow>
         (\<exists>results deadPages.
            sort_contract item_backlink_count (map to_item (object_values g)) results \<and>
            sort_contract dp_backlink_count
              (batch_loop (check_item P probe site) (take 100 (take 1000 results)) 0 [])
              deadPages \<and>
            out = Inr (JSON_stringify (JArr (map dead_page_json deadPages)))))"

subsection \<open>The output of a scan, described without the loop\<close>

text \<open>
  A description of the scan by grouping key, with no loop and no sort algorithm in it;
  the verification compares the code with it. It follows the
  specification of the aggregation (one accumulator per grouping key, in first-seen
  order; every edge of the key counted; the first ten distinct referring domains, by
  first occurrence) with the three restrictions the second variant has: an edge with a
  falsy target is skipped, a falsy source domain is no referring domain, and a key that
  names a member of \<^verbatim>\<open>Object.prototype\<close> gets no accumulator.

  \<open>first_seen\<close> keeps the first occurrence of every element, in order: \<open>remdups\<close> keeps
  the last one.
\<close>

definition first_seen :: "'a list \<Rightarrow> 'a list" where
  "first_seen xs = rev (remdups (rev xs))"

text \<open>
  The edges on which the grouping loop throws: a truthy target whose key names a member
  of \<^verbatim>\<open>Object.prototype\<close>, and a truthy source domain.
\<close>

definition throws_v2 :: "url_parser \<Rightarrow> edge \<Rightarrow> bool" where
  "throws_v2 P link =
    (truthy (url_to link) \<and> grouping_key P link \<in> set object_prototype_keys \<and>
     truthy (domain_from link))"

definition referrer_of :: "edge \<Rightarrow> referrer" where
  "referrer_of link =
    \<lparr>ref_domain = domain_from link,
     ref_url = Some (case url_from link of None \<Rightarrow> [] | Some s \<Rightarrow> s),
     domain_rank = rank_or_zero (domain_from_rank link), backlinks = 1\<rparr>"

text \<open>The referrer of a source domain is made from the first edge that comes from it.\<close>

definition first_referrer :: "edge list \<Rightarrow> string option \<Rightarrow> referrer" where
  "first_referrer ek d = referrer_of (the (find (\<lambda>link. domain_from link = d) ek))"

text \<open>
  The accumulator of a grouping key: path and URL of the first edge with that key, the
  number of edges with that key, their distinct truthy source domains in first-seen
  order, and the referrers of the first ten of these domains.
\<close>

definition aggregate_spec :: "url_parser \<Rightarrow> edge list \<Rightarrow> string \<Rightarrow> aggregate" where
  "aggregate_spec P xs k =
    (let ek = filter (\<lambda>link. grouping_key P link = k) xs;
         doms = first_seen (filter truthy (map domain_from ek))
     in \<lparr>dead_page = target_path P (url_to (hd ek)), target_url = url_to (hd ek),
         backlink_count = length ek, referring_domains = doms,
         top_referrers = map (first_referrer ek) (take 10 doms),
         status_code = None\<rparr>)"

text \<open>One accumulator per grouping key, in first-seen order of the keys.\<close>

definition grouped_of :: "url_parser \<Rightarrow> edge list \<Rightarrow> aggregate js_object" where
  "grouped_of P xs =
    map (\<lambda>k. (k, aggregate_spec P xs k)) (first_seen (map (grouping_key P) xs))"

definition grouped_spec :: "url_parser \<Rightarrow> edge list \<Rightarrow> aggregate js_object" where
  "grouped_spec P items = grouped_of P (filter (counted_v2 P) items)"

text \<open>The ranking: the library's stable sort, by descending backlink count.\<close>

definition ranked_spec :: "url_parser \<Rightarrow> edge list \<Rightarrow> target_item list" where
  "ranked_spec P items =
    sort_key (\<lambda>item. - int (item_backlink_count item))
      (map to_item (object_values (grouped_spec P items)))"

text \<open>The bytes of a record: its fields in a fixed order, no white space.\<close>

definition field_text :: "string \<Rightarrow> string \<Rightarrow> string" where
  "field_text name v = quote name @ '':'' @ v"

definition referrer_text :: "referrer \<Rightarrow> string" where
  "referrer_text r =
    ''{'' @ join_commas
      ((case ref_domain r of None \<Rightarrow> [] | Some s \<Rightarrow> [field_text ''domain'' (quote s)]) @
       (case ref_url r of None \<Rightarrow> [] | Some s \<Rightarrow> [field_text ''url'' (quote s)]) @
       [field_text ''domain_rank'' (number_text (domain_rank r)),
        field_text ''backlinks'' (number_text (int (backlinks r)))]) @ ''}''"

definition dead_page_text :: "dead_page_record \<Rightarrow> string" where
  "dead_page_text d =
    ''{'' @ field_text ''dead_page'' (quote (dp_dead_page d)) @
    '','' @ field_text ''dead_page_path'' (quote (dead_page_path d)) @
    '','' @ field_text ''status_code'' (number_text (dp_status_code d)) @
    '','' @ field_text ''backlink_count'' (number_text (int (dp_backlink_count d))) @
    '','' @ field_text ''referring_domains'' (number_text (int (dp_referring_domains d))) @
    '','' @ field_text ''top_referrers''
             (''['' @ join_commas (map referrer_text (dp_top_referrers d)) @ '']'') @
    ''}''"

text \<open>
  The output: the dead pages among the first 100 ranked targets, ranked again and
  printed; or the error message when some edge makes the loop throw.
\<close>

definition scan_spec_v2 ::
  "url_parser \<Rightarrow> (string \<Rightarrow> settlement) \<Rightarrow> string \<Rightarrow> edge list \<Rightarrow> string + string" where
  "scan_spec_v2 P probe site items =
    (if list_ex (throws_v2 P) items then Inl ''Failed to parse API response''
     else
       Inr (''['' @
            join_commas
              (map dead_page_text
                (sort_key (\<lambda>d. - int (dp_backlink_count d))
                  (List.map_filter (check_item P probe site) (take 100 (ranked_spec P items))))) @
            '']''))"

subsection \<open>Statuses\<close>

text \<open>
  The statuses the public variant treats as dead, and the status a settled probe
  stands for.
\<close>

definition dead_status_v3 :: "(string option \<Rightarrow> settlement) \<Rightarrow> aggregate \<Rightarrow> bool" where
  "dead_status_v3 probe item =
    (probe (target_url item) = Resolved 404 \<or> probe (target_url item) = Resolved 410 \<or>
     probe (target_url item) = Resolved 0)"

definition status_of :: "settlement \<Rightarrow> int" where
  "status_of s = (case s of Resolved n \<Rightarrow> n | Rejected \<Rightarrow> 0)"

section \<open>An environment for the examples\<close>

text \<open>
  A URL parser for the examples. It agrees with \<^verbatim>\<open>new URL\<close> on the absolute
  \<^verbatim>\<open>http\<close> and \<^verbatim>\<open>https\<close> URLs used below (lower-case letters, digits, dots and
  slashes, no port, credentials or fragment) and on strings without a colon, which
  \<^verbatim>\<open>new URL\<close> rejects. No theorem that quantifies over the parser depends on it.
\<close>

definition split_authority :: "string \<Rightarrow> string \<Rightarrow> parsed_url option" where
  "split_authority scheme rest =
    (let host = takeWhile (\<lambda>c. c \<noteq> CHR ''/'' \<and> c \<noteq> CHR ''?'') rest;
         tail = dropWhile (\<lambda>c. c \<noteq> CHR ''/'' \<and> c \<noteq> CHR ''?'') rest;
         path = takeWhile (\<lambda>c. c \<noteq> CHR ''?'') tail;
         query = dropWhile (\<lambda>c. c \<noteq> CHR ''?'') tail
     in if host = [] then None
        else Some \<lparr>protocol = scheme, hostname = host,
                   pathname = (if path = [] then ''/'' else path),
                   search = (if query = ''?'' then [] else query)\<rparr>)"

definition example_parser :: url_parser where
  "example_parser s =
    (if starts_with ''https://'' s then split_authority ''https:'' (drop 8 s)
     else if starts_with ''http://'' s then split_authority ''http:'' (drop 7 s)
     else None)"

definition example_edge :: "string option \<Rightarrow> string \<Rightarrow> edge" where
  "example_edge target source =
    \<lparr>url_to = target, url_from = Some (''https://'' @ source @ ''/post''),
     domain_from = Some source, domain_from_rank = Some 50\<rparr>"

text \<open>Three links to \<^verbatim>\<open>/a\<close> from two domains, one to \<^verbatim>\<open>/b\<close>, one with no target.\<close>

definition example_edges :: "edge list" where
  "example_edges =
    [example_edge (Some ''https://example.com/a'') ''one.org'',
     example_edge (Some ''https://example.com/a'') ''two.org'',
     example_edge (Some ''https://example.com/a'') ''one.org'',
     example_edge (Some ''https://example.com/b'') ''one.org'',
     example_edge None ''two.org'']"

text \<open>Two links to \<^verbatim>\<open>/a\<close> from the same source domain.\<close>

definition repeat_edges :: "edge list" where
  "repeat_edges =
    [example_edge (Some ''https://example.com/a'') ''one.org'',
     example_edge (Some ''https://example.com/a'') ''one.org'']"

text \<open>A link whose target is not a URL.\<close>

definition unparseable_edges :: "edge list" where
  "unparseable_edges = [example_edge (Some ''not-a-url'') ''one.org'']"

text \<open>
  Networks for the examples. Node's \<^verbatim>\<open>http.request\<close> throws
  \<^verbatim>\<open>ERR_UNESCAPED_CHARACTERS\<close> when the path holds a character outside the
  range 0x21-0xFF, which for byte strings is a character below 33.
\<close>

definition node_accepts :: "string \<Rightarrow> string \<Rightarrow> bool" where
  "node_accepts host path = list_all (\<lambda>c. 33 \<le> (of_char c :: nat)) path"

text \<open>Every host is unreachable: each request ends in \<^verbatim>\<open>'error'\<close>.\<close>

definition unreachable_network :: network where
  "unreachable_network = \<lparr>accepts = node_accepts, outcome = (\<lambda>r. TransportError)\<rparr>"

text \<open>HEAD requests time out; a GET request would be answered with 200.\<close>

definition slow_head_network :: network where
  "slow_head_network =
    \<lparr>accepts = node_accepts,
     outcome = (\<lambda>r. if req_method r = HEAD then Timeout else Response 200)\<rparr>"

text \<open>HEAD requests fail in transport; a GET request is answered with 404.\<close>

definition no_head_network :: network where
  "no_head_network =
    \<lparr>accepts = node_accepts,
     outcome = (\<lambda>r. if req_method r = HEAD then TransportError else Response 404)\<rparr>"

text \<open>Every page answers 404.\<close>

definition all_gone_network :: network where
  "all_gone_network = \<lparr>accepts = node_accepts, outcome = (\<lambda>r. Response 404)\<rparr>"

text \<open>
  A URL with an opaque path: \<^verbatim>\<open>new URL('httpx:a b')\<close> has protocol
  \<^verbatim>\<open>httpx:\<close>, an empty host, and keeps the space in its \<^verbatim>\<open>pathname\<close>.
\<close>

definition opaque_parser :: url_parser where
  "opaque_parser =
    example_parser(''httpx:a b'' :=
      Some \<lparr>protocol = ''httpx:'', hostname = [], pathname = ''a b'', search = []\<rparr>)"

text \<open>An item of \<^verbatim>\<open>results\<close> whose target is that URL.\<close>

definition opaque_item :: target_item where
  "opaque_item =
    \<lparr>item_dead_page = Some ''a b'', item_target_url = Some ''httpx:a b'',
     item_backlink_count = 1, item_top_referrers = [], item_status_code = None,
     referring_domains_count = 0\<rparr>"

text \<open>
  \<^verbatim>\<open>JSON.parse\<close> on the bodies the examples send: the serialized request object, the
  empty object and \<^verbatim>\<open>null\<close>; anything else used below is not JSON.
\<close>

definition example_request :: json where
  "example_request = JObj [(''domain'', JStr ''https://Example.com/'')]"

definition example_JSON_parse :: "string \<Rightarrow> json option" where
  "example_JSON_parse s =
    (if s = JSON_stringify example_request then Some example_request
     else if s = ''{}'' then Some (JObj [])
     else if s = ''null'' then Some JNull
     else None)"

definition example_env :: "provider_reply \<Rightarrow> network \<Rightarrow> scan_env" where
  "example_env r n =
    \<lparr>JSON_parse = example_JSON_parse,
     error_message = (\<lambda>f. ''Unexpected token''),
     DATAFORSEO_LOGIN = Some ''login'',
     DATAFORSEO_PASSWORD = Some ''secret'',
     provider = (\<lambda>d. r),
     URL_parse = example_parser,
     internet = n,
     now_at_check = ''2026-01-15T10:00:00.000Z'',
     now_at_reply = ''2026-01-15T10:00:03.000Z''\<rparr>"

definition post_event :: event where
  "post_event = \<lparr>httpMethod = ''POST'', body = Some (JSON_stringify example_request)\<rparr>"

definition options_event :: event where
  "options_event = \<lparr>httpMethod = ''OPTIONS'', body = None\<rparr>"

text \<open>What the second variant's provider call returns for \<open>example_edges\<close>.\<close>

definition example_items :: "target_item list" where
  "example_items =
    [\<lparr>item_dead_page = Some ''/a'', item_target_url = Some ''https://example.com/a'',
      item_backlink_count = 3,
      item_top_referrers =
        [\<lparr>ref_domain = Some ''one.org'', ref_url = Some ''https://one.org/post'',
          domain_rank = 50, backlinks = 1\<rparr>,
         \<lparr>ref_domain = Some ''two.org'', ref_url = Some ''https://two.org/post'',
          domain_rank = 50, backlinks = 1\<rparr>],
      item_status_code = None, referring_domains_count = 2\<rparr>,
     \<lparr>item_dead_page = Some ''/b'', item_target_url = Some ''https://example.com/b'',
      item_backlink_count = 1,
      item_top_referrers =
        [\<lparr>ref_domain = Some ''one.org'', ref_url = Some ''https://one.org/post'',
          domain_rank = 50, backlinks = 1\<rparr>],
      item_status_code = None, referring_domains_count = 1\<rparr>]"

text \<open>The records the second variant reports for \<open>example_edges\<close> when every probe says 404.\<close>

definition example_dead_pages :: "dead_page_record list" where
  "example_dead_pages =
    [\<lparr>dp_dead_page = ''https://example.com/a'', dead_page_path = ''/a'', dp_status_code = 404,
      dp_backlink_count = 3, dp_referring_domains = 2,
      dp_top_referrers =
        [\<lparr>ref_domain = Some ''one.org'', ref_url = Some ''https://one.org/post'',
          domain_rank = 50, backlinks = 1\<rparr>,
         \<lparr>ref_domain = Some ''two.org'', ref_url = Some ''https://two.org/post'',
          domain_rank = 50, backlinks = 1\<rparr>]\<rparr>,
     \<lparr>dp_dead_page = ''https://example.com/b'', dead_page_path = ''/b'', dp_status_code = 404,
      dp_backlink_count = 1, dp_referring_domains = 1,
      dp_top_referrers =
        [\<lparr>ref_domain = Some ''one.org'', ref_url = Some ''https://one.org/post'',
          domain_rank = 50, backlinks = 1\<rparr>]\<rparr>]"

text \<open>The accumulator the public variant builds for \<open>repeat_edges\<close>.\<close>

definition example_aggregate :: aggregate where
  "example_aggregate =
    \<lparr>dead_page = Some ''/a'', target_url = Some ''https://example.com/a'', backlink_count = 2,
     referring_domains = [Some ''one.org''],
     top_referrers =
       [\<lparr>ref_domain = Some ''one.org'', ref_url = Some ''https://one.org/post'',
         domain_rank = 50, backlinks = 1\<rparr>,
        \<lparr>ref_domain = Some ''one.org'', ref_url = Some ''https://one.org/post'',
         domain_rank = 50, backlinks = 1\<rparr>],
     status_code = None\<rparr>"

section \<open>Verification\<close>

subsection \<open>Objects as dictionaries\<close>

lemma total_update_new:
  "map_of g k = None \<Longrightarrow>
   total_backlinks (AList.update k v g) = total_backlinks g + backlink_count v"
  by (induction g) (auto simp: total_backlinks_def)

lemma total_update_own:
  "map_of g k = Some a \<Longrightarrow>
   total_backlinks (AList.update k v g) + backlink_count a = total_backlinks g + backlink_count v"
  by (induction g) (auto simp: total_backlinks_def)

lemma mset_object_entries: "mset (object_entries g) = mset g"
  by (simp add: object_entries_def)

lemma set_object_values: "set (object_values g) = snd ` set g"
  by (auto simp: object_values_def object_entries_def)

lemma length_object_values: "length (object_values g) = length g"
proof -
  have "size (mset (object_entries g)) = size (mset g)"
    by (simp only: mset_object_entries)
  then show ?thesis by (simp add: object_values_def)
qed

lemma sum_object_values:
  "sum_list (map backlink_count (object_values g)) = total_backlinks g"
proof -
  let ?f = "\<lambda>kv. backlink_count (snd kv)"
  have "mset (map ?f (object_entries g)) = mset (map ?f g)"
    by (simp add: mset_object_entries)
  then have "sum_list (map ?f (object_entries g)) = sum_list (map ?f g)"
    by (metis sum_mset_sum_list)
  then show ?thesis by (simp add: object_values_def total_backlinks_def comp_def)
qed

lemma plain_keys_update:
  "plain_keys g \<Longrightarrow> k \<notin> set object_prototype_keys \<Longrightarrow> plain_keys (AList.update k v g)"
  unfolding plain_keys_def by (induction g) auto

lemma plain_keys_Own:
  "plain_keys g \<Longrightarrow> map_of g k = Some a \<Longrightarrow> k \<notin> set object_prototype_keys"
  unfolding plain_keys_def list_all_iff by (metis fst_conv map_of_SomeD)

lemma obj_get_Own: "obj_get g k = Own a \<longleftrightarrow> map_of g k = Some a"
  by (auto simp: obj_get_def split: option.splits)

lemma obj_get_Missing:
  "obj_get g k = Missing \<longleftrightarrow> map_of g k = None \<and> k \<notin> set object_prototype_keys"
  by (auto simp: obj_get_def split: option.splits)

lemma obj_get_Inherited:
  "obj_get g k = Inherited \<longleftrightarrow> map_of g k = None \<and> k \<in> set object_prototype_keys"
  by (auto simp: obj_get_def split: option.splits)

subsection \<open>Every pass of the grouping loop counts its edge once\<close>

lemma backlink_count_push_v1: "backlink_count (push_v1 link a) = backlink_count a + 1"
  by (simp add: push_v1_def Let_def)

lemma backlink_count_push_v2: "backlink_count (push_v2 link a) = backlink_count a + 1"
  by (simp add: push_v2_def Let_def)

lemma step_v2_total:
  assumes "plain_keys g" "group_edge_v2 P g link = Inr g'"
  shows "plain_keys g' \<and>
         total_backlinks g' = total_backlinks g + (if counted_v2 P link then 1 else 0)"
proof (cases "truthy (url_to link)")
  case False
  with assms show ?thesis by (simp add: group_edge_v2_def counted_v2_def)
next
  case True
  let ?k = "grouping_key P link"
  show ?thesis
  proof (cases "obj_get g ?k")
    case (Own a)
    then have m: "map_of g ?k = Some a" by (simp add: obj_get_Own)
    have nk: "?k \<notin> set object_prototype_keys" using plain_keys_Own[OF assms(1) m] .
    from assms(2) True Own have g': "g' = AList.update ?k (push_v2 link a) g"
      by (auto simp: group_edge_v2_def grouping_key_def Let_def)
    show ?thesis
      using total_update_own[OF m, of "push_v2 link a"] plain_keys_update[OF assms(1) nk] True nk
      by (simp add: g' counted_v2_def backlink_count_push_v2)
  next
    case Inherited
    then have "?k \<in> set object_prototype_keys" by (simp add: obj_get_Inherited)
    moreover from assms(2) True Inherited have "g' = g"
      by (auto simp: group_edge_v2_def grouping_key_def Let_def split: if_splits)
    ultimately show ?thesis using assms(1) by (simp add: counted_v2_def)
  next
    case Missing
    then have m: "map_of g ?k = None" and nk: "?k \<notin> set object_prototype_keys"
      by (simp_all add: obj_get_Missing)
    from assms(2) True Missing
    have g': "g' = AList.update ?k
                (push_v2 link (fresh_aggregate (target_path P (url_to link)) (url_to link))) g"
      by (auto simp: group_edge_v2_def grouping_key_def Let_def)
    show ?thesis using total_update_new[OF m] plain_keys_update[OF assms(1) nk] True nk
      by (simp add: g' counted_v2_def backlink_count_push_v2 fresh_aggregate_def)
  qed
qed

lemma step_v1_total:
  assumes "plain_keys g" "group_edge_v1 P g link = Inr g'"
  shows "plain_keys g' \<and> total_backlinks g' = total_backlinks g + 1"
proof -
  let ?k = "grouping_key P link"
  show ?thesis
  proof (cases "obj_get g ?k")
    case (Own a)
    then have m: "map_of g ?k = Some a" by (simp add: obj_get_Own)
    have nk: "?k \<notin> set object_prototype_keys" using plain_keys_Own[OF assms(1) m] .
    from assms(2) Own have g': "g' = AList.update ?k (push_v1 link a) g"
      by (auto simp: group_edge_v1_def grouping_key_def Let_def)
    show ?thesis
      using total_update_own[OF m, of "push_v1 link a"] plain_keys_update[OF assms(1) nk]
      by (simp add: g' backlink_count_push_v1)
  next
    case Inherited
    with assms(2) show ?thesis
      by (auto simp: group_edge_v1_def grouping_key_def Let_def)
  next
    case Missing
    then have m: "map_of g ?k = None" and nk: "?k \<notin> set object_prototype_keys"
      by (simp_all add: obj_get_Missing)
    from assms(2) Missing
    have g': "g' = AList.update ?k
                (push_v1 link (fresh_aggregate (target_path P (url_to link)) (url_to link))) g"
      by (auto simp: group_edge_v1_def grouping_key_def Let_def)
    show ?thesis using total_update_new[OF m] plain_keys_update[OF assms(1) nk]
      by (simp add: g' backlink_count_push_v1 fresh_aggregate_def)
  qed
qed

lemma group_edges_v2_total:
  "plain_keys g \<Longrightarrow> group_edges (group_edge_v2 P) g items = Inr g' \<Longrightarrow>
   total_backlinks g' = total_backlinks g + length (filter (counted_v2 P) items)"
proof (induction items arbitrary: g)
  case Nil
  then show ?case by simp
next
  case (Cons link links)
  from Cons.prems(2) obtain g1 where s: "group_edge_v2 P g link = Inr g1"
    and r: "group_edges (group_edge_v2 P) g1 links = Inr g'"
    by (auto split: sum.splits)
  from step_v2_total[OF Cons.prems(1) s] Cons.IH[OF _ r] show ?case by auto
qed

lemma group_edges_v1_total:
  "plain_keys g \<Longrightarrow> group_edges (group_edge_v1 P) g items = Inr g' \<Longrightarrow>
   total_backlinks g' = total_backlinks g + length items"
proof (induction items arbitrary: g)
  case Nil
  then show ?case by simp
next
  case (Cons link links)
  from Cons.prems(2) obtain g1 where s: "group_edge_v1 P g link = Inr g1"
    and r: "group_edges (group_edge_v1 P) g1 links = Inr g'"
    by (auto split: sum.splits)
  from step_v1_total[OF Cons.prems(1) s] Cons.IH[OF _ r] show ?case by auto
qed

lemma step_v1_completes:
  "grouping_key P link \<notin> set object_prototype_keys \<Longrightarrow> \<exists>g'. group_edge_v1 P g link = Inr g'"
  by (auto simp: group_edge_v1_def grouping_key_def Let_def obj_get_def split: option.splits)

lemma step_v2_completes:
  "grouping_key P link \<notin> set object_prototype_keys \<Longrightarrow> \<exists>g'. group_edge_v2 P g link = Inr g'"
  by (auto simp: group_edge_v2_def grouping_key_def Let_def obj_get_def split: option.splits)

lemma group_edges_v1_completes:
  "\<forall>link \<in> set items. grouping_key P link \<notin> set object_prototype_keys \<Longrightarrow>
   \<exists>g'. group_edges (group_edge_v1 P) g items = Inr g'"
proof (induction items arbitrary: g)
  case Nil
  then show ?case by simp
next
  case (Cons link links)
  then obtain g1 where "group_edge_v1 P g link = Inr g1" using step_v1_completes by fastforce
  with Cons show ?case by simp
qed

lemma group_edges_v2_completes:
  "\<forall>link \<in> set items. grouping_key P link \<notin> set object_prototype_keys \<Longrightarrow>
   \<exists>g'. group_edges (group_edge_v2 P) g items = Inr g'"
proof (induction items arbitrary: g)
  case Nil
  then show ?case by simp
next
  case (Cons link links)
  then obtain g1 where "group_edge_v2 P g link = Inr g1" using step_v2_completes by fastforce
  with Cons show ?case by simp
qed

lemma counted_v2_plain:
  "\<forall>link \<in> set items. grouping_key P link \<notin> set object_prototype_keys \<Longrightarrow>
   filter (counted_v2 P) items = filter (\<lambda>link. truthy (url_to link)) items"
  by (rule filter_cong) (auto simp: counted_v2_def)

subsection \<open>Evaluating the examples\<close>

lemma example_parse_a:
  "example_parser ''https://example.com/a'' =
   Some \<lparr>protocol = ''https:'', hostname = ''example.com'', pathname = ''/a'', search = []\<rparr>"
  by (simp add: example_parser_def starts_with_def split_authority_def)

lemma example_parse_b:
  "example_parser ''https://example.com/b'' =
   Some \<lparr>protocol = ''https:'', hostname = ''example.com'', pathname = ''/b'', search = []\<rparr>"
  by (simp add: example_parser_def starts_with_def split_authority_def)

lemma example_parse_undefined: "example_parser ''undefined'' = None"
  by (simp add: example_parser_def starts_with_def)

lemma example_keys_plain:
  "\<forall>link \<in> set example_edges. grouping_key example_parser link \<notin> set object_prototype_keys"
  by (simp add: example_edges_def example_edge_def grouping_key_def target_path_def new_URL_def
      to_js_string_def example_parse_a example_parse_b example_parse_undefined
      object_prototype_keys_def)

subsection \<open>Claim C1\<close>

text \<open>
  C1 (as amended). Provided no grouping key is the name of a member of
  \<^verbatim>\<open>Object.prototype\<close>, the grouping loop completes in both variants; in the first
  variant the sum of \<^verbatim>\<open>backlink_count\<close> over the produced aggregates equals the number
  of input edges, and in the second variant it equals the number of input edges whose
  target URL is present and non-empty: the guard \<^verbatim>\<open>if (!targetUrl) continue;\<close> skips
  the others. Repeated edges from one source domain are each counted.
\<close>

theorem C1_backlink_count_sum:
  assumes "\<forall>link \<in> set items. grouping_key P link \<notin> set object_prototype_keys"
  shows "(\<exists>g. groupedByTarget_v1 P items = Inr g \<and>
              sum_list (map backlink_count (object_values g)) = length items) \<and>
         (\<exists>g. groupedByTarget_v2 P items = Inr g \<and>
              sum_list (map backlink_count (object_values g)) =
                length (filter (\<lambda>link. truthy (url_to link)) items))"
proof -
  have p0: "plain_keys ([] :: aggregate js_object)" by (simp add: plain_keys_def)
  obtain g1 where g1: "group_edges (group_edge_v1 P) [] items = Inr g1"
    using group_edges_v1_completes[OF assms] by blast
  obtain g2 where g2: "group_edges (group_edge_v2 P) [] items = Inr g2"
    using group_edges_v2_completes[OF assms] by blast
  have "total_backlinks g1 = length items"
    using group_edges_v1_total[OF p0 g1] by (simp add: total_backlinks_def)
  moreover have "total_backlinks g2 = length (filter (\<lambda>link. truthy (url_to link)) items)"
    using group_edges_v2_total[OF p0 g2] counted_v2_plain[OF assms]
    by (simp add: total_backlinks_def)
  ultimately show ?thesis
    using g1 g2 by (simp add: groupedByTarget_v1_def groupedByTarget_v2_def sum_object_values)
qed

theorem C1_backlink_count_sum_witness:
  "(\<exists>g. groupedByTarget_v1 example_parser example_edges = Inr g \<and>
        sum_list (map backlink_count (object_values g)) = 5) \<and>
   (\<exists>g. groupedByTarget_v2 example_parser example_edges = Inr g \<and>
        sum_list (map backlink_count (object_values g)) = 4)"
proof -
  have a: "length example_edges = 5"
    by (simp add: example_edges_def)
  have b: "length (filter (\<lambda>link. truthy (url_to link)) example_edges) = 4"
    by (simp add: example_edges_def example_edge_def truthy_def)
  show ?thesis
    using C1_backlink_count_sum[OF example_keys_plain] unfolding a b .
qed

text \<open>
  The claim as stated fails in the second variant: an edge with no target URL is
  skipped, so one input edge yields no aggregate and a sum of 0.
\<close>

theorem C1_missing_target_counterexample:
  "groupedByTarget_v2 example_parser [example_edge None ''two.org''] = Inr [] \<and>
   sum_list (map backlink_count (object_values ([] :: aggregate js_object))) = 0 \<and>
   length [example_edge None ''two.org''] = 1"
  by (simp add: groupedByTarget_v2_def group_edge_v2_def example_edge_def truthy_def
      object_values_def object_entries_def)

subsection \<open>Top referrers in the second variant\<close>

lemma referrers_ok_fresh: "referrers_ok (fresh_aggregate p u)"
  by (simp add: referrers_ok_def fresh_aggregate_def)

lemma referrers_ok_push_v2:
  assumes "referrers_ok a"
  shows "referrers_ok (push_v2 link a)"
proof -
  let ?rs = "referring_domains a" and ?ts = "top_referrers a"
  from assms have d: "distinct ?rs" and t: "map ref_domain ?ts = take 10 ?rs"
    by (simp_all add: referrers_ok_def)
  from t have len: "length ?ts = min (length ?rs) 10"
    by (metis length_map length_take)
  show ?thesis
  proof (cases "truthy (domain_from link) \<and> domain_from link \<notin> set ?rs")
    case False
    with assms show ?thesis by (auto simp: push_v2_def referrers_ok_def Let_def)
  next
    case new_domain: True
    show ?thesis
    proof (cases "length ?ts < 10")
      case True
      with len have "length ?rs < 10" by simp
      with new_domain True d t
      show ?thesis by (simp add: push_v2_def referrers_ok_def Let_def)
    next
      case False
      with len have "10 \<le> length ?rs" by simp
      with new_domain False d t
      show ?thesis by (simp add: push_v2_def referrers_ok_def Let_def)
    qed
  qed
qed

lemma set_update_subset: "set (AList.update k v g) \<subseteq> insert (k, v) (set g)"
  by (induction g) auto

lemma step_v2_referrers:
  assumes "\<forall>a \<in> snd ` set g. referrers_ok a" "group_edge_v2 P g link = Inr g'"
  shows "\<forall>a \<in> snd ` set g'. referrers_ok a"
proof (cases "truthy (url_to link)")
  case False
  with assms show ?thesis by (simp add: group_edge_v2_def)
next
  case True
  let ?k = "to_js_string (target_path P (url_to link))"
  show ?thesis
  proof (cases "obj_get g ?k")
    case (Own a)
    then have "(?k, a) \<in> set g" by (simp add: obj_get_Own map_of_SomeD)
    with assms(1) have "referrers_ok (push_v2 link a)" by (force intro: referrers_ok_push_v2)
    moreover from assms(2) True Own have "g' = AList.update ?k (push_v2 link a) g"
      by (auto simp: group_edge_v2_def Let_def)
    ultimately show ?thesis using assms(1) set_update_subset[of ?k "push_v2 link a" g] by auto
  next
    case Inherited
    with assms True have "g' = g" by (auto simp: group_edge_v2_def Let_def split: if_splits)
    with assms(1) show ?thesis by simp
  next
    case Missing
    let ?v = "push_v2 link (fresh_aggregate (target_path P (url_to link)) (url_to link))"
    have "referrers_ok ?v" by (rule referrers_ok_push_v2[OF referrers_ok_fresh])
    moreover from assms(2) True Missing have "g' = AList.update ?k ?v g"
      by (auto simp: group_edge_v2_def Let_def)
    ultimately show ?thesis using assms(1) set_update_subset[of ?k ?v g] by auto
  qed
qed

lemma group_edges_v2_referrers:
  "\<forall>a \<in> snd ` set g. referrers_ok a \<Longrightarrow> group_edges (group_edge_v2 P) g items = Inr g' \<Longrightarrow>
   \<forall>a \<in> snd ` set g'. referrers_ok a"
proof (induction items arbitrary: g)
  case Nil
  then show ?case by simp
next
  case (Cons link links)
  from Cons.prems(2) obtain g1 where s: "group_edge_v2 P g link = Inr g1"
    and r: "group_edges (group_edge_v2 P) g1 links = Inr g'"
    by (auto split: sum.splits)
  from Cons.IH[OF step_v2_referrers[OF Cons.prems(1) s] r] show ?case .
qed

lemma referrers_ok_bound:
  assumes "referrers_ok a"
  shows "length (top_referrers a) \<le> min 10 (card (set (referring_domains a))) \<and>
         distinct (map ref_domain (top_referrers a))"
proof -
  from assms have d: "distinct (referring_domains a)"
    and t: "map ref_domain (top_referrers a) = take 10 (referring_domains a)"
    by (simp_all add: referrers_ok_def)
  have "length (top_referrers a) = length (take 10 (referring_domains a))"
    by (metis t length_map)
  moreover have "card (set (referring_domains a)) = length (referring_domains a)"
    using d by (rule distinct_card)
  ultimately show ?thesis using d t by simp
qed

text \<open>
  In the second variant every produced aggregate has at most
  \<open>min 10 |referring_domains|\<close> top referrers, one per referring domain.
\<close>

lemma top_referrers_bounded_v2:
  assumes "groupedByTarget_v2 P items = Inr g" "a \<in> set (object_values g)"
  shows "length (top_referrers a) \<le> min 10 (card (set (referring_domains a))) \<and>
         distinct (map ref_domain (top_referrers a))"
proof -
  have "\<forall>a \<in> snd ` set g. referrers_ok a"
    using group_edges_v2_referrers[of "[]" P items g] assms(1)
    by (simp add: groupedByTarget_v2_def)
  with assms(2) have "referrers_ok a" by (simp only: set_object_values)
  then show ?thesis by (rule referrers_ok_bound)
qed

subsection \<open>Claim C3\<close>

text \<open>
  C3. The bound \<open>length top_referrers \<le> min 10 |referring_domains|\<close> holds in the second
  variant (\<open>top_referrers_bounded_v2\<close>). The first variant breaks it: it pushes a
  referrer for every edge while the list is shorter than 10, whether or not the source
  domain is already there. On two links to \<^verbatim>\<open>/a\<close> from the one domain
  \<^verbatim>\<open>one.org\<close> the first variant leaves two top referrers for one referring domain,
  the second variant one.
\<close>

theorem C3_first_variant_repeats_referrers:
  "(\<exists>a. groupedByTarget_v1 example_parser repeat_edges = Inr [(''/a'', a)] \<and>
        length (top_referrers a) = 2 \<and> card (set (referring_domains a)) = 1) \<and>
   (\<exists>a. groupedByTarget_v2 example_parser repeat_edges = Inr [(''/a'', a)] \<and>
        length (top_referrers a) = 1 \<and> card (set (referring_domains a)) = 1)"
  by (simp add: groupedByTarget_v1_def group_edge_v1_def groupedByTarget_v2_def
      group_edge_v2_def repeat_edges_def example_edge_def truthy_def
      target_path_def new_URL_def to_js_string_def example_parse_a obj_get_def
      object_prototype_keys_def Let_def push_v1_def push_v2_def fresh_aggregate_def)

subsection \<open>Targets that do not parse\<close>

lemma example_parse_not_a_url: "example_parser ''not-a-url'' = None"
  by (simp add: example_parser_def starts_with_def)

text \<open>
  The first and second variant catch the parse failure and group under the raw string;
  the public variant has no \<^verbatim>\<open>try\<close> around \<^verbatim>\<open>new URL(targetUrl)\<close>.
\<close>

lemma unparseable_target_v1:
  assumes "url_to link = Some u" "P u = None" "u \<notin> set object_prototype_keys"
  shows "\<exists>a. group_edge_v1 P g link = Inr (AList.update u (push_v1 link a) g) \<and>
             a = (case map_of g u of Some b \<Rightarrow> b | None \<Rightarrow> fresh_aggregate (Some u) (Some u))"
  using assms
  by (auto simp: group_edge_v1_def target_path_def new_URL_def to_js_string_def
      obj_get_def Let_def split: option.splits)

lemma unparseable_target_v2:
  assumes "url_to link = Some u" "u \<noteq> []" "P u = None" "u \<notin> set object_prototype_keys"
  shows "\<exists>a. group_edge_v2 P g link = Inr (AList.update u (push_v2 link a) g) \<and>
             a = (case map_of g u of Some b \<Rightarrow> b | None \<Rightarrow> fresh_aggregate (Some u) (Some u))"
  using assms
  by (auto simp: group_edge_v2_def truthy_def target_path_def new_URL_def to_js_string_def
      obj_get_def Let_def split: option.splits)

lemma unparseable_target_v3:
  assumes "url_to link = Some u" "P u = None"
  shows "group_edge_v3 P g link = Inl TypeError"
  using assms by (simp add: group_edge_v3_def new_URL_def to_js_string_def)

subsection \<open>Claim C7\<close>

text \<open>
  C7. An edge whose target URL does not parse is grouped under the raw string and
  counted by the first and the second variant (\<open>unparseable_target_v1\<close>,
  \<open>unparseable_target_v2\<close>). The public variant calls
  \<^verbatim>\<open>new URL(targetUrl).pathname\<close> unguarded: on the one edge with target
  \<^verbatim>\<open>not-a-url\<close> the throw leaves the loop, the outer \<^verbatim>\<open>catch\<close> answers
  \<^verbatim>\<open>Failed to parse API response\<close>, and every edge of the scan is lost.
\<close>

theorem C7_public_variant_unguarded:
  "callDataForSEO_v3 example_parser (\<lambda>url. Resolved 200) (Items unparseable_edges) =
     ApiError ''Failed to parse API response'' \<and>
   (\<exists>a. groupedByTarget_v2 example_parser unparseable_edges = Inr [(''not-a-url'', a)] \<and>
        backlink_count a = 1) \<and>
   (\<exists>a. groupedByTarget_v1 example_parser unparseable_edges = Inr [(''not-a-url'', a)] \<and>
        backlink_count a = 1)"
  by (simp add: callDataForSEO_v3_def groupedByTarget_v3_def group_edge_v3_def
      groupedByTarget_v1_def group_edge_v1_def groupedByTarget_v2_def
      group_edge_v2_def unparseable_edges_def example_edge_def truthy_def
      target_path_def new_URL_def to_js_string_def example_parse_not_a_url obj_get_def
      object_prototype_keys_def Let_def push_v1_def push_v2_def fresh_aggregate_def)

subsection \<open>The probe\<close>

lemma checkUrlStatus_v3_resolves: "\<exists>n. settled (checkUrlStatus_v3 P net url) = Resolved n"
  by (simp add: checkUrlStatus_v3_def Let_def split: option.splits req_outcome.splits)

text \<open>
  The second variant rejects exactly when the URL parses and the platform refuses to
  create the request; in every other case it resolves to a number.
\<close>

lemma checkUrlStatus_v2_rejects_iff:
  "settled (checkUrlStatus_v2 P net url) = Rejected \<longleftrightarrow>
   (\<exists>u. P url = Some u \<and> \<not> accepts net (hostname u) (pathname u @ search u))"
  by (auto simp: checkUrlStatus_v2_def head_options_v2_def Let_def
      split: option.splits req_outcome.splits)

lemma checkUrlStatus_v2_resolves:
  assumes "\<And>host path. accepts net host path"
  shows "\<exists>n. settled (checkUrlStatus_v2 P net url) = Resolved n"
proof (cases "settled (checkUrlStatus_v2 P net url)")
  case (Resolved n)
  then show ?thesis by blast
next
  case Rejected
  with assms show ?thesis by (simp add: checkUrlStatus_v2_rejects_iff)
qed

lemma checkUrlStatus_v2_invalid:
  "P url = None \<Longrightarrow> checkUrlStatus_v2 P net url = \<lparr>settled = Resolved 0, issued = []\<rparr>"
  by (simp add: checkUrlStatus_v2_def)

lemma checkUrlStatus_v3_invalid:
  "new_URL P url = None \<Longrightarrow>
   checkUrlStatus_v3 P net url = \<lparr>settled = Resolved 0, issued = []\<rparr>"
  by (simp add: checkUrlStatus_v3_def)

subsection \<open>Claim C6\<close>

text \<open>
  C6 (as amended). For a URL that parses and whose request the platform creates, the
  probe of the second variant does one of three things, by how the HEAD request ends.
  A response: its status code is the result. A transport error: a GET request with the
  same host, path, timeout and headers is issued, and the result is its status code, or
  0 when the GET request errors or times out. A timeout: the result is 0 at once; no
  fallback request is made before the probe settles.
\<close>

theorem C6_fallback_on_error_only:
  assumes "P url = Some parsedUrl"
    and "accepts net (hostname parsedUrl) (pathname parsedUrl @ search parsedUrl)"
  shows "(case outcome net (head_options_v2 parsedUrl) of
            Response code \<Rightarrow>
              checkUrlStatus_v2 P net url =
                \<lparr>settled = Resolved code, issued = [head_options_v2 parsedUrl]\<rparr>
          | TransportError \<Rightarrow>
              checkUrlStatus_v2 P net url =
                \<lparr>settled =
                   (case outcome net ((head_options_v2 parsedUrl)\<lparr>req_method := GET\<rparr>) of
                      Response code \<Rightarrow> Resolved code
                    | TransportError \<Rightarrow> Resolved 0
                    | Timeout \<Rightarrow> Resolved 0),
                 issued = [head_options_v2 parsedUrl,
                           (head_options_v2 parsedUrl)\<lparr>req_method := GET\<rparr>]\<rparr>
          | Timeout \<Rightarrow>
              checkUrlStatus_v2 P net url =
                \<lparr>settled = Resolved 0, issued = [head_options_v2 parsedUrl]\<rparr>)"
  using assms
  by (simp add: checkUrlStatus_v2_def head_options_v2_def Let_def split: req_outcome.splits)

theorem C6_fallback_on_error_only_witness:
  "checkUrlStatus_v2 example_parser no_head_network ''https://example.com/a'' =
     \<lparr>settled = Resolved 404,
      issued =
        [head_options_v2
           \<lparr>protocol = ''https:'', hostname = ''example.com'', pathname = ''/a'', search = []\<rparr>,
         (head_options_v2
            \<lparr>protocol = ''https:'', hostname = ''example.com'', pathname = ''/a'', search = []\<rparr>)
           \<lparr>req_method := GET\<rparr>]\<rparr>"
proof -
  have ok: "accepts no_head_network ''example.com'' (''/a'' @ [])"
    by (simp add: no_head_network_def node_accepts_def)
  show ?thesis
    using C6_fallback_on_error_only[of example_parser "''https://example.com/a''"
        "\<lparr>protocol = ''https:'', hostname = ''example.com'', pathname = ''/a'', search = []\<rparr>"
        no_head_network]
      example_parse_a ok
    by (simp add: no_head_network_def head_options_v2_def)
qed

text \<open>
  The claim as stated fails on a timeout: the HEAD request to \<^verbatim>\<open>/a\<close> times out, a
  GET request would be answered with 200, and the probe resolves to 0 with the HEAD
  request the only one issued.
\<close>

theorem C6_head_timeout_counterexample:
  "outcome slow_head_network
     ((head_options_v2
         \<lparr>protocol = ''https:'', hostname = ''example.com'', pathname = ''/a'', search = []\<rparr>)
        \<lparr>req_method := GET\<rparr>) = Response 200 \<and>
   checkUrlStatus_v2 example_parser slow_head_network ''https://example.com/a'' =
     \<lparr>settled = Resolved 0,
      issued =
        [head_options_v2
           \<lparr>protocol = ''https:'', hostname = ''example.com'', pathname = ''/a'', search = []\<rparr>]\<rparr>"
  by (simp add: checkUrlStatus_v2_def example_parse_a head_options_v2_def
      slow_head_network_def node_accepts_def Let_def)

subsection \<open>Claim C10\<close>

text \<open>
  C10. The public variant always resolves (\<open>checkUrlStatus_v3_resolves\<close>), and both
  variants resolve an invalid URL to 0 with no request issued
  (\<open>checkUrlStatus_v2_invalid\<close>, \<open>checkUrlStatus_v3_invalid\<close>). The second variant
  creates its request outside any \<^verbatim>\<open>try\<close>: when \<^verbatim>\<open>protocol.request\<close> throws, the
  promise executor throws and the promise rejects. The target \<^verbatim>\<open>httpx:a b\<close> starts
  with \<^verbatim>\<open>http\<close>, so \<^verbatim>\<open>filterDeadPages\<close> hands it to the probe unchanged; it
  parses, its path holds a space, Node refuses the path, and the second variant rejects
  where the public variant resolves to 0.
\<close>

theorem C10_second_variant_rejects:
  "url_to_check ''example.com'' opaque_item = Some ''httpx:a b'' \<and>
   settled (checkUrlStatus_v2 opaque_parser unreachable_network ''httpx:a b'') = Rejected \<and>
   settled (checkUrlStatus_v3 opaque_parser unreachable_network (Some ''httpx:a b''))
     = Resolved 0"
  by (simp add: checkUrlStatus_v2_def checkUrlStatus_v3_def opaque_parser_def
      head_options_v2_def head_options_v3_def new_URL_def to_js_string_def
      unreachable_network_def node_accepts_def Let_def url_to_check_def opaque_item_def
      truthy_def starts_with_def)

subsection \<open>The sort\<close>

text \<open>
  For a comparator \<^verbatim>\<open>(a, b) => k(b) - k(a)\<close> the insertion sort is the library's
  stable \<open>sort_key\<close> on the negated key; it meets the contract, and the contract admits
  no other result.
\<close>

lemma insert_by_insort:
  assumes "\<And>a b. cmp a b = int (k b) - int (k a)"
  shows "insert_by cmp x ys = insort_key (\<lambda>y. - int (k y)) x ys"
  by (induction ys) (simp_all add: assms)

lemma js_sort_sort_key:
  assumes "\<And>a b. cmp a b = int (k b) - int (k a)"
  shows "js_sort cmp xs = sort_key (\<lambda>y. - int (k y)) xs"
proof -
  have "insert_by cmp = insort_key (\<lambda>y. - int (k y))"
    using insert_by_insort[OF assms] by (intro ext)
  then show ?thesis by (simp add: js_sort_def sort_key_def)
qed

lemma js_sort_contract:
  assumes "\<And>a b. cmp a b = int (k b) - int (k a)"
  shows "sort_contract k xs (js_sort cmp xs)"
proof -
  let ?f = "\<lambda>y. - int (k y)"
  have "sorted (map ?f (sort_key ?f xs))" by (rule sorted_sort_key)
  then have "sorted_wrt (\<lambda>a b. k b \<le> k a) (sort_key ?f xs)"
    by (simp add: sorted_wrt_map)
  moreover have "filter (\<lambda>x. k x = c) (sort_key ?f xs) = filter (\<lambda>x. k x = c) xs" for c
    using sort_key_stable[of ?f "- int c" xs] by simp
  ultimately show ?thesis
    by (simp add: sort_contract_def js_sort_sort_key[OF assms])
qed

lemma sort_contract_unique:
  assumes "\<And>a b. cmp a b = int (k b) - int (k a)" "sort_contract k xs ys"
  shows "ys = js_sort cmp xs"
proof -
  let ?f = "\<lambda>y. - int (k y)"
  from assms(2) have m: "mset ys = mset xs"
    and s: "sorted_wrt (\<lambda>a b. k b \<le> k a) ys"
    and st: "\<And>c. filter (\<lambda>x. k x = c) ys = filter (\<lambda>x. k x = c) xs"
    by (simp_all add: sort_contract_def)
  have "sort_key ?f xs = ys"
  proof (rule properties_for_sort_key[OF m])
    fix x assume "x \<in> set ys"
    show "filter (\<lambda>y. ?f x = ?f y) ys = filter (\<lambda>y. ?f x = ?f y) xs"
      using st[of "k x"] by (simp add: eq_commute)
  next
    show "sorted (map ?f ys)" using s by (simp add: sorted_wrt_map)
  qed
  then show ?thesis by (simp add: js_sort_sort_key[OF assms(1)])
qed

lemma dp_cmp: "by_dp_backlinks_desc a b = int (dp_backlink_count b) - int (dp_backlink_count a)"
  by (simp add: by_dp_backlinks_desc_def)

lemma item_cmp: "by_backlinks_desc a b = int (item_backlink_count b) - int (item_backlink_count a)"
  by (simp add: by_backlinks_desc_def)

lemma set_js_sort:
  assumes "\<And>a b. cmp a b = int (k b) - int (k a)"
  shows "set (js_sort cmp xs) = set xs" "length (js_sort cmp xs) = length xs"
  by (simp_all add: js_sort_sort_key[OF assms])

lemma sorted_js_sort:
  assumes "\<And>a b. cmp a b = int (k b) - int (k a)"
  shows "sorted_wrt (\<lambda>a b. k b \<le> k a) (js_sort cmp xs)"
proof -
  have "sort_contract k xs (js_sort cmp xs)"
    by (rule js_sort_contract) (rule assms)
  then show ?thesis by (simp add: sort_contract_def)
qed

subsection \<open>The batch loop and the dead-page filter\<close>

lemma map_filter_append: "List.map_filter f (xs @ ys) = List.map_filter f xs @ List.map_filter f ys"
  by (simp add: List.map_filter_def)

lemma batch_loop_map_filter:
  "batch_loop chk xs i acc = acc @ List.map_filter chk (drop i xs)"
proof (induction chk xs i acc rule: batch_loop.induct)
  case (1 chk xs i acc)
  show ?case
  proof (cases "i < length xs")
    case True
    have "List.map_filter chk (take 10 (drop i xs)) @ List.map_filter chk (drop (i + 10) xs)
          = List.map_filter chk (drop i xs)"
      by (metis map_filter_append append_take_drop_id drop_drop add.commute)
    with 1 True show ?thesis by (subst batch_loop.simps) simp
  next
    case False
    then show ?thesis by (subst batch_loop.simps) (simp add: List.map_filter_def)
  qed
qed

lemma filterDeadPages_eq:
  "filterDeadPages P probe results site =
   js_sort by_dp_backlinks_desc (List.map_filter (check_item P probe site) (take 100 results))"
  by (simp add: filterDeadPages_def Let_def batch_loop_map_filter)

lemma set_map_filter: "set (List.map_filter f xs) = {y. \<exists>x \<in> set xs. f x = Some y}"
  by (force simp: List.map_filter_def image_iff)

lemma length_map_filter: "length (List.map_filter f xs) \<le> length xs"
  by (simp add: List.map_filter_def)

lemma check_item_Some:
  assumes "check_item P probe site item = Some d"
  shows "probe (dp_dead_page d) = Resolved (dp_status_code d) \<and>
         (dp_status_code d = 404 \<or> dp_status_code d = 410) \<and>
         url_to_check site item = Some (dp_dead_page d) \<and>
         dp_backlink_count d = item_backlink_count item"
  using assms
  by (auto simp: check_item_def split: option.splits settlement.splits if_splits)

lemma check_item_unreachable:
  "url_to_check site item = Some u \<Longrightarrow> probe u = Resolved 0 \<Longrightarrow>
   check_item P probe site item = None"
  by (simp add: check_item_def)

lemma filterDeadPages_records:
  assumes "d \<in> set (filterDeadPages P probe results site)"
  shows "\<exists>item \<in> set (take 100 results). check_item P probe site item = Some d"
proof -
  let ?dead = "List.map_filter (check_item P probe site) (take 100 results)"
  have "set (filterDeadPages P probe results site) = set ?dead"
    unfolding filterDeadPages_eq by (rule set_js_sort(1)) (rule dp_cmp)
  with assms have "d \<in> set ?dead" by simp
  then show ?thesis by (simp add: set_map_filter)
qed

lemma probe_items_v3_acc:
  "probe_items_v3 probe items acc = Inr rs \<Longrightarrow>
   rs = acc @ map (\<lambda>item. mark_dead_v3 item (status_of (probe (target_url item))))
              (filter (dead_status_v3 probe) items)"
proof (induction items arbitrary: acc)
  case Nil
  then show ?case by simp
next
  case (Cons item items)
  show ?case
  proof (cases "probe (target_url item)")
    case Rejected
    with Cons.prems show ?thesis by simp
  next
    case (Resolved s)
    show ?thesis
    proof (cases "s = 404 \<or> s = 410 \<or> s = 0")
      case True
      with Cons.prems Resolved
      have "probe_items_v3 probe items (acc @ [mark_dead_v3 item s]) = Inr rs" by simp
      from Cons.IH[OF this] True Resolved show ?thesis
        by (simp add: dead_status_v3_def status_of_def)
    next
      case False
      with Cons.prems Resolved have "probe_items_v3 probe items acc = Inr rs" by simp
      from Cons.IH[OF this] False Resolved show ?thesis
        by (simp add: dead_status_v3_def status_of_def)
    qed
  qed
qed

lemma mark_dead_v3_status:
  "item_status_code (mark_dead_v3 x s) = Some (if s = 0 then 404 else s)"
  by (simp add: mark_dead_v3_def)

lemma probe_items_v3_unreachable:
  assumes "probe_items_v3 probe3 items [] = Inr rs"
  shows "(\<forall>x \<in> set items. probe3 (target_url x) = Resolved 0 \<longrightarrow>
            mark_dead_v3 x 0 \<in> set rs \<and> item_status_code (mark_dead_v3 x 0) = Some 404) \<and>
         (\<forall>x \<in> set rs. item_status_code x \<noteq> Some 0)"
proof -
  let ?m = "\<lambda>item. mark_dead_v3 item (status_of (probe3 (target_url item)))"
  from probe_items_v3_acc[OF assms]
  have rs: "rs = map ?m (filter (dead_status_v3 probe3) items)" by simp
  have a: "mark_dead_v3 x 0 \<in> set rs \<and> item_status_code (mark_dead_v3 x 0) = Some 404"
    if "x \<in> set items" "probe3 (target_url x) = Resolved 0" for x
  proof -
    from that have "x \<in> set (filter (dead_status_v3 probe3) items)"
      by (simp add: dead_status_v3_def)
    then have "?m x \<in> ?m ` set (filter (dead_status_v3 probe3) items)" by (rule imageI)
    then have "?m x \<in> set rs" unfolding rs by (simp only: set_map)
    with that(2) show ?thesis by (simp add: status_of_def mark_dead_v3_status)
  qed
  have b: "item_status_code y \<noteq> Some 0" if "y \<in> set rs" for y
  proof -
    from that obtain x where x: "dead_status_v3 probe3 x" and y: "y = ?m x"
      unfolding rs by auto
    from x show ?thesis
      unfolding y dead_status_v3_def by (auto simp: status_of_def mark_dead_v3_status)
  qed
  from a b show ?thesis by blast
qed

subsection \<open>Evaluating the ranking examples\<close>

lemma not_index_a: "\<not> is_array_index ''/a''" "\<not> is_array_index ''/b''"
  by (simp_all add: is_array_index_def is_digit_def)

lemma example_grouped_v3:
  "groupedByTarget_v3 example_parser repeat_edges = Inr [(''/a'', example_aggregate)]"
  by (simp add: groupedByTarget_v3_def group_edge_v3_def repeat_edges_def example_edge_def
      new_URL_def to_js_string_def example_parse_a obj_get_def object_prototype_keys_def Let_def
      push_v3_def fresh_aggregate_def rank_or_zero_def example_aggregate_def)

lemma object_values_single: "object_values [(''/a'', x)] = [x]"
  by (simp add: object_values_def object_entries_def not_index_a)

lemma example_results_v3:
  "probe (Some ''https://example.com/a'') = Resolved 0 \<Longrightarrow>
   callDataForSEO_v3 example_parser probe (Items repeat_edges) =
     ApiResults [mark_dead_v3 example_aggregate 0]"
  by (simp add: callDataForSEO_v3_def example_grouped_v3 object_values_single js_sort_def
      example_aggregate_def)

lemma unreachable_v2:
  "settled (checkUrlStatus_v2 example_parser unreachable_network ''https://example.com/a'') = Resolved 0"
  "settled (checkUrlStatus_v2 example_parser unreachable_network ''https://example.com/b'') = Resolved 0"
  by (simp_all add: checkUrlStatus_v2_def example_parse_a example_parse_b head_options_v2_def
      unreachable_network_def node_accepts_def Let_def)

lemma unreachable_v3:
  "settled (checkUrlStatus_v3 example_parser unreachable_network (Some ''https://example.com/a'')) = Resolved 0"
  by (simp add: checkUrlStatus_v3_def new_URL_def to_js_string_def example_parse_a head_options_v3_def
      unreachable_network_def node_accepts_def Let_def)

lemma example_check_items:
  assumes "probe ''https://example.com/a'' = Resolved s" "probe ''https://example.com/b'' = Resolved t"
  shows "List.map_filter (check_item P probe ''example.com'') example_items =
         (if s = 404 \<or> s = 410 then
            [\<lparr>dp_dead_page = ''https://example.com/a'', dead_page_path = ''/a'',
              dp_status_code = s, dp_backlink_count = 3, dp_referring_domains = 2,
              dp_top_referrers = item_top_referrers (example_items ! 0)\<rparr>] else []) @
         (if t = 404 \<or> t = 410 then
            [\<lparr>dp_dead_page = ''https://example.com/b'', dead_page_path = ''/b'',
              dp_status_code = t, dp_backlink_count = 1, dp_referring_domains = 1,
              dp_top_referrers = item_top_referrers (example_items ! 1)\<rparr>] else [])"
  using assms
  by (simp add: List.map_filter_def check_item_def url_to_check_def example_items_def truthy_def
      starts_with_def Let_def)

subsection \<open>Claim C2\<close>

text \<open>
  C2 (as amended). A target whose probe resolves to status 0 is never reported with
  status code 0. In the second variant it is not treated as dead: \<^verbatim>\<open>filterDeadPages\<close>
  keeps only statuses 404 and 410, so the item yields no record, and every record that
  is emitted carries the status its own URL probed to, which is not 0. In the public
  variant the target is treated as dead and is emitted, with \<^verbatim>\<open>status || 404\<close>, that
  is 404, as its status code.
\<close>

theorem C2_unreachable_not_reported_as_0:
  "(url_to_check site item = Some u \<and> probe u = Resolved 0 \<longrightarrow>
      check_item P probe site item = None) \<and>
   (\<forall>d \<in> set (filterDeadPages P probe results site).
      probe (dp_dead_page d) = Resolved (dp_status_code d) \<and> dp_status_code d \<noteq> 0) \<and>
   (probe_items_v3 probe3 items [] = Inr rs \<longrightarrow>
      (\<forall>x \<in> set items. probe3 (target_url x) = Resolved 0 \<longrightarrow>
         mark_dead_v3 x 0 \<in> set rs \<and> item_status_code (mark_dead_v3 x 0) = Some 404) \<and>
      (\<forall>x \<in> set rs. item_status_code x \<noteq> Some 0))"
proof -
  have v2: "probe (dp_dead_page d) = Resolved (dp_status_code d) \<and> dp_status_code d \<noteq> 0"
    if "d \<in> set (filterDeadPages P probe results site)" for d
  proof -
    from filterDeadPages_records[OF that] obtain item
      where "check_item P probe site item = Some d" by blast
    from check_item_Some[OF this] show ?thesis by auto
  qed
  from v2 probe_items_v3_unreachable show ?thesis
    by (simp add: check_item_unreachable)
qed

theorem C2_unreachable_not_reported_as_0_witness:
  "check_item example_parser (\<lambda>url. Resolved 0) ''example.com'' (example_items ! 0) = None \<and>
   probe_items_v3 (\<lambda>url. Resolved 0) [example_aggregate] [] = Inr [mark_dead_v3 example_aggregate 0] \<and>
   item_status_code (mark_dead_v3 example_aggregate 0) = Some 404"
proof -
  have a: "url_to_check ''example.com'' (example_items ! 0) = Some ''https://example.com/a''"
    by (simp add: url_to_check_def example_items_def truthy_def starts_with_def)
  have b: "probe_items_v3 (\<lambda>url. Resolved 0) [example_aggregate] [] = Inr [mark_dead_v3 example_aggregate 0]"
    by simp
  show ?thesis
    using C2_unreachable_not_reported_as_0[of "''example.com''" "example_items ! 0"
        "''https://example.com/a''" "\<lambda>url. Resolved 0" example_parser "[]"
        "\<lambda>url. Resolved 0" "[example_aggregate]" "[mark_dead_v3 example_aggregate 0]"] a b
    by simp
qed

text \<open>
  The claim as stated fails in both variants. Every host is unreachable, so each probe
  resolves to 0: the second variant reports no dead page at all, and the public variant
  reports the page with status code 404.
\<close>

theorem C2_status_0_counterexample:
  "settled (checkUrlStatus_v2 example_parser unreachable_network ''https://example.com/a'')
     = Resolved 0 \<and>
   filterDeadPages example_parser
     (\<lambda>url. settled (checkUrlStatus_v2 example_parser unreachable_network url))
     example_items ''example.com'' = [] \<and>
   callDataForSEO_v3 example_parser
     (\<lambda>url. settled (checkUrlStatus_v3 example_parser unreachable_network url))
     (Items repeat_edges) = ApiResults [mark_dead_v3 example_aggregate 0] \<and>
   item_status_code (mark_dead_v3 example_aggregate 0) = Some 404"
proof -
  have "take 100 example_items = example_items" by (simp add: example_items_def)
  then have "filterDeadPages example_parser
     (\<lambda>url. settled (checkUrlStatus_v2 example_parser unreachable_network url))
     example_items ''example.com'' = []"
    by (simp add: filterDeadPages_eq example_check_items[OF unreachable_v2] js_sort_def)
  then show ?thesis
    using example_results_v3[of "\<lambda>url. settled (checkUrlStatus_v3 example_parser unreachable_network url)"]
    by (simp add: unreachable_v2 unreachable_v3 mark_dead_v3_status)
qed

subsection \<open>Claim C5\<close>

text \<open>
  C5. The ranker's output is sorted non-increasing by \<^verbatim>\<open>backlink_count\<close>, is no
  longer than the result cap, and holds only records whose status code is in the
  dead-status set. For \<^verbatim>\<open>filterDeadPages\<close> of the second variant the length is at
  most the 100 checked targets, below the cap of 1000, and the statuses are 404 or 410.
  For the public variant, whenever the provider call returns results, they are sorted,
  at most 1000, and carry 404 or 410.
\<close>

theorem C5_ranker_output:
  "(sorted_wrt (\<lambda>a b. dp_backlink_count b \<le> dp_backlink_count a)
      (filterDeadPages P probe results site) \<and>
    length (filterDeadPages P probe results site) \<le> 100 \<and>
    length (filterDeadPages P probe results site) \<le> 1000 \<and>
    (\<forall>d \<in> set (filterDeadPages P probe results site).
       dp_status_code d = 404 \<or> dp_status_code d = 410)) \<and>
   (callDataForSEO_v3 P probe3 r = ApiResults rs \<longrightarrow>
      sorted_wrt (\<lambda>a b. item_backlink_count b \<le> item_backlink_count a) rs \<and>
      length rs \<le> 1000 \<and>
      (\<forall>x \<in> set rs. item_status_code x = Some 404 \<or> item_status_code x = Some 410))"
proof -
  let ?dead = "List.map_filter (check_item P probe site) (take 100 results)"
  have eq: "filterDeadPages P probe results site = js_sort by_dp_backlinks_desc ?dead"
    by (rule filterDeadPages_eq)
  have s2: "sorted_wrt (\<lambda>a b. dp_backlink_count b \<le> dp_backlink_count a)
              (js_sort by_dp_backlinks_desc ?dead)"
    by (rule sorted_js_sort) (rule dp_cmp)
  have "length (js_sort by_dp_backlinks_desc ?dead) = length ?dead"
    by (rule set_js_sort(2)) (rule dp_cmp)
  also have "\<dots> \<le> length (take 100 results)" by (rule length_map_filter)
  finally have l2: "length (js_sort by_dp_backlinks_desc ?dead) \<le> 100" by simp
  have "set (js_sort by_dp_backlinks_desc ?dead) = set ?dead"
    by (rule set_js_sort(1)) (rule dp_cmp)
  then have d2: "\<forall>d \<in> set (js_sort by_dp_backlinks_desc ?dead).
                   dp_status_code d = 404 \<or> dp_status_code d = 410"
    using check_item_Some by (fastforce simp: set_map_filter)
  have v3: "sorted_wrt (\<lambda>a b. item_backlink_count b \<le> item_backlink_count a) rs \<and>
            length rs \<le> 1000 \<and>
            (\<forall>x \<in> set rs. item_status_code x = Some 404 \<or> item_status_code x = Some 410)"
    if run: "callDataForSEO_v3 P probe3 r = ApiResults rs"
  proof -
    from run obtain links g found where g: "groupedByTarget_v3 P links = Inr g"
      and f: "probe_items_v3 probe3 (take 100 (object_values g)) [] = Inr found"
      and rs: "rs = take 1000 (js_sort by_backlinks_desc found)"
      by (auto simp: callDataForSEO_v3_def split: provider_reply.splits sum.splits)
    have "sorted_wrt (\<lambda>a b. item_backlink_count b \<le> item_backlink_count a)
            (js_sort by_backlinks_desc found)"
      by (rule sorted_js_sort) (rule item_cmp)
    then have a: "sorted_wrt (\<lambda>a b. item_backlink_count b \<le> item_backlink_count a) rs"
      unfolding rs by (rule sorted_wrt_take)
    have b: "length rs \<le> 1000" by (simp add: rs)
    have "set rs \<subseteq> set (js_sort by_backlinks_desc found)"
      unfolding rs by (rule set_take_subset)
    also have "\<dots> = set found" by (rule set_js_sort(1)) (rule item_cmp)
    finally have sub: "set rs \<subseteq> set found" .
    have "\<forall>x \<in> set found. item_status_code x = Some 404 \<or> item_status_code x = Some 410"
      using probe_items_v3_acc[OF f]
      by (auto simp: dead_status_v3_def status_of_def mark_dead_v3_def)
    with sub have c: "\<forall>x \<in> set rs. item_status_code x = Some 404 \<or> item_status_code x = Some 410"
      by blast
    from a b c show ?thesis by blast
  qed
  from l2 have l3: "length (js_sort by_dp_backlinks_desc ?dead) \<le> 1000" by simp
  from s2 l2 l3 d2 v3 show ?thesis unfolding eq by blast
qed

theorem C5_ranker_output_witness:
  "length (filterDeadPages example_parser (\<lambda>url. Resolved 404) example_items ''example.com'') = 2 \<and>
   sorted_wrt (\<lambda>a b. dp_backlink_count b \<le> dp_backlink_count a)
     (filterDeadPages example_parser (\<lambda>url. Resolved 404) example_items ''example.com'') \<and>
   callDataForSEO_v3 example_parser (\<lambda>url. Resolved 0) (Items repeat_edges) =
     ApiResults [mark_dead_v3 example_aggregate 0] \<and>
   item_status_code (mark_dead_v3 example_aggregate 0) = Some 404"
proof -
  have t: "take 100 example_items = example_items" by (simp add: example_items_def)
  have l: "length (filterDeadPages example_parser (\<lambda>url. Resolved 404) example_items ''example.com'') = 2"
    by (simp add: filterDeadPages_eq t example_check_items[of _ 404 404]
        js_sort_sort_key[of by_dp_backlinks_desc dp_backlink_count, OF dp_cmp])
  have r: "callDataForSEO_v3 example_parser (\<lambda>url. Resolved 0) (Items repeat_edges) =
     ApiResults [mark_dead_v3 example_aggregate 0]"
    by (rule example_results_v3) simp
  show ?thesis
    using C5_ranker_output[of example_parser "\<lambda>url. Resolved 404" example_items "''example.com''"
        "\<lambda>url. Resolved 0" "Items repeat_edges" "[mark_dead_v3 example_aggregate 0]"]
      l r
    by (simp add: mark_dead_v3_status)
qed

subsection \<open>The grouping loop computes the accumulators of the description\<close>

lemma first_seen_Nil [simp]: "first_seen [] = []"
  by (simp add: first_seen_def)

lemma first_seen_snoc:
  "first_seen (xs @ [x]) = (if x \<in> set xs then first_seen xs else first_seen xs @ [x])"
  by (simp add: first_seen_def)

lemma set_first_seen [simp]: "set (first_seen xs) = set xs"
  by (simp add: first_seen_def)

lemma distinct_first_seen [simp]: "distinct (first_seen xs)"
  by (simp add: first_seen_def)

lemma map_of_keyed:
  "map_of (map (\<lambda>k. (k, f k)) ks) k = (if k \<in> set ks then Some (f k) else None)"
  by (induction ks) auto

lemma update_keyed_old:
  "distinct ks \<Longrightarrow> k \<in> set ks \<Longrightarrow>
   AList.update k v (map (\<lambda>j. (j, f j)) ks) = map (\<lambda>j. (j, if j = k then v else f j)) ks"
proof (induction ks)
  case Nil
  then show ?case by simp
next
  case (Cons a ks)
  show ?case
  proof (cases "a = k")
    case True
    with Cons.prems have "k \<notin> set ks" by simp
    then have "map (\<lambda>j. (j, if j = k then v else f j)) ks = map (\<lambda>j. (j, f j)) ks"
      by (intro map_cong) auto
    with True show ?thesis by simp
  next
    case False
    with Cons show ?thesis by simp
  qed
qed

lemma update_keyed_new:
  "k \<notin> set ks \<Longrightarrow> AList.update k v (map (\<lambda>j. (j, f j)) ks) = map (\<lambda>j. (j, f j)) ks @ [(k, v)]"
  by (induction ks) auto

lemma find_append_left: "find Q xs \<noteq> None \<Longrightarrow> find Q (xs @ ys) = find Q xs"
  by (induction xs) auto

lemma find_append_right: "find Q xs = None \<Longrightarrow> find Q (xs @ ys) = find Q ys"
  by (induction xs) (auto split: if_splits)

lemma find_None: "find Q xs = None \<longleftrightarrow> (\<forall>x \<in> set xs. \<not> Q x)"
  by (induction xs) auto

lemma push_v2_alt:
  "push_v2 x a =
    (if truthy (domain_from x) \<and> domain_from x \<notin> set (referring_domains a)
     then a\<lparr>backlink_count := backlink_count a + 1,
            referring_domains := referring_domains a @ [domain_from x],
            top_referrers := (if length (top_referrers a) < 10
                              then top_referrers a @ [referrer_of x] else top_referrers a)\<rparr>
     else a\<lparr>backlink_count := backlink_count a + 1\<rparr>)"
  by (simp add: push_v2_def referrer_of_def Let_def)

lemma aggregate_spec_other:
  "grouping_key P x \<noteq> k \<Longrightarrow> aggregate_spec P (xs @ [x]) k = aggregate_spec P xs k"
  by (simp add: aggregate_spec_def)

lemma first_referrer_single: "first_referrer [x] (domain_from x) = referrer_of x"
  by (simp add: first_referrer_def)

text \<open>The first edge of a key creates the accumulator the loop creates.\<close>

lemma aggregate_spec_first:
  assumes "\<forall>link \<in> set xs. grouping_key P link \<noteq> grouping_key P x"
  shows "aggregate_spec P (xs @ [x]) (grouping_key P x) =
         push_v2 x (fresh_aggregate (target_path P (url_to x)) (url_to x))"
proof -
  from assms have "filter (\<lambda>link. grouping_key P link = grouping_key P x) xs = []"
    by (simp add: filter_empty_conv)
  then show ?thesis
    by (simp add: aggregate_spec_def push_v2_alt fresh_aggregate_def Let_def
        first_referrer_single first_seen_def)
qed

text \<open>A later edge of a key changes the accumulator as the loop body does.\<close>

lemma aggregate_spec_next:
  assumes "\<exists>link \<in> set xs. grouping_key P link = grouping_key P x"
  shows "aggregate_spec P (xs @ [x]) (grouping_key P x) =
         push_v2 x (aggregate_spec P xs (grouping_key P x))"
proof -
  define ek where "ek = filter (\<lambda>link. grouping_key P link = grouping_key P x) xs"
  define D where "D = filter truthy (map domain_from ek)"
  define d where "d = domain_from x"
  from assms have ne: "ek \<noteq> []" by (auto simp: ek_def filter_empty_conv)
  have ek': "filter (\<lambda>link. grouping_key P link = grouping_key P x) (xs @ [x]) = ek @ [x]"
    by (simp add: ek_def)
  have old: "first_referrer (ek @ [x]) e = first_referrer ek e" if "e \<in> set D" for e
  proof -
    from that have "find (\<lambda>link. domain_from link = e) ek \<noteq> None"
      by (auto simp: D_def find_None)
    then show ?thesis by (simp add: first_referrer_def find_append_left)
  qed
  have new: "first_referrer (ek @ [x]) d = referrer_of x" if "truthy d" "d \<notin> set D"
  proof -
    from that have "find (\<lambda>link. domain_from link = d) ek = None"
      by (auto simp: D_def find_None)
    then show ?thesis by (simp add: first_referrer_def find_append_right d_def)
  qed
  have m: "map (first_referrer (ek @ [x])) (take 10 (first_seen D)) =
           map (first_referrer ek) (take 10 (first_seen D))"
    by (rule map_cong) (auto dest: in_set_takeD simp: old)
  have a: "aggregate_spec P xs (grouping_key P x) =
      \<lparr>dead_page = target_path P (url_to (hd ek)), target_url = url_to (hd ek),
       backlink_count = length ek, referring_domains = first_seen D,
       top_referrers = map (first_referrer ek) (take 10 (first_seen D)), status_code = None\<rparr>"
    by (simp add: aggregate_spec_def Let_def ek_def D_def)
  show ?thesis
  proof (cases "truthy d \<and> d \<notin> set D")
    case True
    then have fs: "first_seen (filter truthy (map domain_from (ek @ [x]))) = first_seen D @ [d]"
      by (auto simp: D_def d_def first_seen_snoc)
    from True have n: "first_referrer (ek @ [x]) d = referrer_of x" by (simp add: new)
    have "aggregate_spec P (xs @ [x]) (grouping_key P x) =
      \<lparr>dead_page = target_path P (url_to (hd ek)), target_url = url_to (hd ek),
       backlink_count = length ek + 1, referring_domains = first_seen D @ [d],
       top_referrers = map (first_referrer (ek @ [x])) (take 10 (first_seen D @ [d])),
       status_code = None\<rparr>"
      unfolding aggregate_spec_def ek' Let_def fs using ne by simp
    also have "map (first_referrer (ek @ [x])) (take 10 (first_seen D @ [d])) =
      (if length (first_seen D) < 10
       then map (first_referrer ek) (take 10 (first_seen D)) @ [referrer_of x]
       else map (first_referrer ek) (take 10 (first_seen D)))"
      using m n by simp
    finally show ?thesis
      using True unfolding a push_v2_alt by (simp add: d_def min_def)
  next
    case False
    then have fs: "first_seen (filter truthy (map domain_from (ek @ [x]))) = first_seen D"
      by (auto simp: D_def d_def first_seen_snoc)
    have "aggregate_spec P (xs @ [x]) (grouping_key P x) =
      \<lparr>dead_page = target_path P (url_to (hd ek)), target_url = url_to (hd ek),
       backlink_count = length ek + 1, referring_domains = first_seen D,
       top_referrers = map (first_referrer (ek @ [x])) (take 10 (first_seen D)),
       status_code = None\<rparr>"
      unfolding aggregate_spec_def ek' Let_def fs using ne by simp
    then show ?thesis
      using False unfolding a push_v2_alt by (simp add: d_def m)
  qed
qed

lemma obj_get_grouped_of:
  "obj_get (grouped_of P xs) k =
    (if k \<in> grouping_key P ` set xs then Own (aggregate_spec P xs k)
     else if k \<in> set object_prototype_keys then Inherited else Missing)"
  by (simp add: obj_get_def grouped_of_def map_of_keyed)

lemma grouped_of_snoc:
  "AList.update (grouping_key P x)
     (push_v2 x (if grouping_key P x \<in> grouping_key P ` set xs
                 then aggregate_spec P xs (grouping_key P x)
                 else fresh_aggregate (target_path P (url_to x)) (url_to x)))
     (grouped_of P xs) = grouped_of P (xs @ [x])"
proof (cases "grouping_key P x \<in> grouping_key P ` set xs")
  case True
  then have n: "aggregate_spec P (xs @ [x]) (grouping_key P x) =
                push_v2 x (aggregate_spec P xs (grouping_key P x))"
    by (intro aggregate_spec_next) auto
  have "map (\<lambda>j. (j, if j = grouping_key P x
                      then push_v2 x (aggregate_spec P xs (grouping_key P x))
                      else aggregate_spec P xs j)) (first_seen (map (grouping_key P) xs)) =
        map (\<lambda>j. (j, aggregate_spec P (xs @ [x]) j)) (first_seen (map (grouping_key P) xs))"
    by (rule map_cong) (auto simp: n aggregate_spec_other)
  with True show ?thesis
    by (simp add: grouped_of_def update_keyed_old first_seen_snoc)
next
  case False
  then have n: "aggregate_spec P (xs @ [x]) (grouping_key P x) =
                push_v2 x (fresh_aggregate (target_path P (url_to x)) (url_to x))"
    by (intro aggregate_spec_first) (force simp: image_iff)
  have "map (\<lambda>j. (j, aggregate_spec P xs j)) (first_seen (map (grouping_key P) xs)) =
        map (\<lambda>j. (j, aggregate_spec P (xs @ [x]) j)) (first_seen (map (grouping_key P) xs))"
  proof (rule map_cong)
    fix j assume "j \<in> set (first_seen (map (grouping_key P) xs))"
    with False have "grouping_key P x \<noteq> j" by auto
    then show "(j, aggregate_spec P xs j) = (j, aggregate_spec P (xs @ [x]) j)"
      by (simp add: aggregate_spec_other)
  qed simp
  with False show ?thesis
    by (simp add: grouped_of_def update_keyed_new first_seen_snoc n)
qed

text \<open>One pass of the loop body, on the accumulators of the edges counted so far.\<close>

lemma group_edge_v2_grouped_of:
  assumes "\<forall>link \<in> set xs. counted_v2 P link"
  shows "group_edge_v2 P (grouped_of P xs) x =
    (if throws_v2 P x then Inl TypeError
     else Inr (grouped_of P (if counted_v2 P x then xs @ [x] else xs)))"
proof (cases "truthy (url_to x)")
  case False
  then show ?thesis by (simp add: group_edge_v2_def throws_v2_def counted_v2_def)
next
  case True
  show ?thesis
  proof (cases "grouping_key P x \<in> set object_prototype_keys")
    case True
    with assms have "grouping_key P x \<notin> grouping_key P ` set xs"
      by (auto simp: counted_v2_def)
    with True \<open>truthy (url_to x)\<close> show ?thesis
      by (simp add: group_edge_v2_def throws_v2_def counted_v2_def Let_def
          grouping_key_def[symmetric] obj_get_grouped_of)
  next
    case False
    with \<open>truthy (url_to x)\<close> show ?thesis
      using grouped_of_snoc[of P x xs]
      by (auto simp: group_edge_v2_def throws_v2_def counted_v2_def Let_def
          grouping_key_def[symmetric] obj_get_grouped_of split: if_splits)
  qed
qed

lemma group_edges_v2_grouped_of:
  assumes "\<forall>link \<in> set xs. counted_v2 P link"
  shows "group_edges (group_edge_v2 P) (grouped_of P xs) items =
    (if list_ex (throws_v2 P) items then Inl TypeError
     else Inr (grouped_of P (xs @ filter (counted_v2 P) items)))"
  using assms
proof (induction items arbitrary: xs)
  case Nil
  then show ?case by simp
next
  case (Cons x items)
  show ?case
  proof (cases "throws_v2 P x")
    case True
    then show ?thesis by (simp add: group_edge_v2_grouped_of[OF Cons.prems])
  next
    case False
    have c: "\<forall>link \<in> set (if counted_v2 P x then xs @ [x] else xs). counted_v2 P link"
      using Cons.prems by simp
    show ?thesis
      using False Cons.IH[OF c]
      by (simp add: group_edge_v2_grouped_of[OF Cons.prems])
  qed
qed

lemma groupedByTarget_v2_spec:
  "groupedByTarget_v2 P items =
    (if list_ex (throws_v2 P) items then Inl TypeError else Inr (grouped_spec P items))"
  using group_edges_v2_grouped_of[of "[]" P items]
  by (simp add: groupedByTarget_v2_def grouped_spec_def grouped_of_def)

lemma fst_grouped_spec:
  "map fst (grouped_spec P items) =
   first_seen (map (grouping_key P) (filter (counted_v2 P) items))"
  by (simp add: grouped_spec_def grouped_of_def comp_def)

subsection \<open>The bytes \<^verbatim>\<open>JSON.stringify\<close> prints for the records\<close>

lemma referrer_text: "JSON_stringify (referrer_json r) = referrer_text r"
  by (cases "ref_domain r"; cases "ref_url r")
    (simp_all add: referrer_json_def js_fields_def List.map_filter_def JSON_stringify.simps
      referrer_text_def field_text_def)

lemma dead_page_text: "JSON_stringify (dead_page_json d) = dead_page_text d"
proof -
  have "JSON_stringify \<circ> referrer_json = referrer_text"
    by (rule ext) (simp add: referrer_text)
  then show ?thesis
    by (simp add: dead_page_json_def JSON_stringify.simps dead_page_text_def field_text_def)
qed

lemma results_text:
  "JSON_stringify (JArr (map dead_page_json ds)) =
   ''['' @ join_commas (map dead_page_text ds) @ '']''"
proof -
  have "JSON_stringify \<circ> dead_page_json = dead_page_text"
    by (rule ext) (simp add: dead_page_text)
  then show ?thesis by (simp add: JSON_stringify.simps)
qed

lemma scan_output_v2_spec: "scan_output_v2 P probe site items = scan_spec_v2 P probe site items"
  by (simp add: scan_output_v2_def scan_spec_v2_def callDataForSEO_v2_def callDataForSEO_def
      groupedByTarget_v2_spec filterDeadPages_eq results_text ranked_spec_def
      js_sort_sort_key[OF item_cmp] js_sort_sort_key[OF dp_cmp])

lemma example_spec_v2:
  "scan_spec_v2 example_parser (\<lambda>url. Resolved 404) ''example.com'' example_edges =
   Inr (''['' @ join_commas (map dead_page_text example_dead_pages) @ '']'')"
  by code_simp

lemma example_keys_v2:
  "\<not> list_ex (throws_v2 example_parser) example_edges"
  "first_seen (map (grouping_key example_parser) (filter (counted_v2 example_parser) example_edges)) =
   [''/a'', ''/b'']"
  by code_simp+

subsection \<open>Claim C8\<close>

text \<open>
  C8. Aggregation followed by ranking is deterministic. In the second variant the
  grouping loop leaves the accumulators in first-seen order of their grouping keys. A run
  on a given edge list and probe-result assignment, with the engine free to sort in any
  way the contract of \<^verbatim>\<open>Array.prototype.sort\<close> admits, has exactly one possible output:
  the text \<open>scan_spec_v2\<close> describes without the loop, built from the accumulators of the
  keys as \<^verbatim>\<open>Object.values\<close> lists them, the stable sort by backlink count, and the
  records printed field by field. The executable pipeline \<open>scan_output_v2\<close> is such a run,
  and any two runs end with the same text.
\<close>

theorem C8_deterministic:
  "(groupedByTarget_v2 P items = Inr g \<longrightarrow>
      map fst g = first_seen (map (grouping_key P) (filter (counted_v2 P) items))) \<and>
   (scan_run_v2 P probe site items out \<longleftrightarrow> out = scan_spec_v2 P probe site items) \<and>
   scan_run_v2 P probe site items (scan_output_v2 P probe site items) \<and>
   (scan_run_v2 P probe site items out1 \<and> scan_run_v2 P probe site items out2 \<longrightarrow> out1 = out2)"
proof -
  have keys: "map fst g = first_seen (map (grouping_key P) (filter (counted_v2 P) items))"
    if "groupedByTarget_v2 P items = Inr g"
  proof -
    from that have "g = grouped_spec P items"
      by (simp add: groupedByTarget_v2_spec split: if_splits)
    then show ?thesis by (simp add: fst_grouped_spec)
  qed
  have one: "scan_run_v2 P probe site items r \<longleftrightarrow> r = scan_spec_v2 P probe site items" for r
  proof (cases "list_ex (throws_v2 P) items")
    case True
    then show ?thesis
      by (simp add: scan_run_v2_def scan_spec_v2_def groupedByTarget_v2_spec)
  next
    case False
    let ?xs = "map to_item (object_values (grouped_spec P items))"
    let ?results = "ranked_spec P items"
    let ?found = "List.map_filter (check_item P probe site) (take 100 ?results)"
    let ?deadPages = "sort_key (\<lambda>d. - int (dp_backlink_count d)) ?found"
    have g: "groupedByTarget_v2 P items = Inr (grouped_spec P items)"
      using False by (simp add: groupedByTarget_v2_spec)
    have spec: "scan_spec_v2 P probe site items =
                Inr (JSON_stringify (JArr (map dead_page_json ?deadPages)))"
      using False by (simp add: scan_spec_v2_def results_text)
    have r: "?results = js_sort by_backlinks_desc ?xs"
      by (simp add: ranked_spec_def js_sort_sort_key[OF item_cmp])
    have d: "?deadPages = js_sort by_dp_backlinks_desc ?found"
      by (simp add: js_sort_sort_key[OF dp_cmp])
    have b: "batch_loop (check_item P probe site) rs 0 [] =
             List.map_filter (check_item P probe site) rs" for rs
      by (simp add: batch_loop_map_filter)
    have u1: "results = ?results" if "sort_contract item_backlink_count ?xs results" for results
      unfolding r using that by (rule sort_contract_unique[OF item_cmp])
    have u2: "deadPages = ?deadPages" if "sort_contract dp_backlink_count ?found deadPages"
      for deadPages
      unfolding d using that by (rule sort_contract_unique[OF dp_cmp])
    have c1: "sort_contract item_backlink_count ?xs ?results"
      unfolding r by (rule js_sort_contract) (rule item_cmp)
    have c2: "sort_contract dp_backlink_count ?found ?deadPages"
      unfolding d by (rule js_sort_contract) (rule dp_cmp)
    show ?thesis
    proof
      assume "scan_run_v2 P probe site items r"
      then obtain results deadPages where
        r1: "sort_contract item_backlink_count ?xs results" and
        d1: "sort_contract dp_backlink_count
              (List.map_filter (check_item P probe site) (take 100 results)) deadPages" and
        o: "r = Inr (JSON_stringify (JArr (map dead_page_json deadPages)))"
        by (auto simp: scan_run_v2_def g b)
      from u1[OF r1] d1 have "sort_contract dp_backlink_count ?found deadPages" by (simp only:)
      then have "deadPages = ?deadPages" by (rule u2)
      with o spec show "r = scan_spec_v2 P probe site items" by simp
    next
      assume "r = scan_spec_v2 P probe site items"
      with spec c1 c2 show "scan_run_v2 P probe site items r"
        by (auto simp: scan_run_v2_def g b)
    qed
  qed
  from keys one[of out] one[of out1] one[of out2] one[of "scan_output_v2 P probe site items"]
  show ?thesis by (simp add: scan_output_v2_spec)
qed

theorem C8_deterministic_witness:
  "groupedByTarget_v2 example_parser example_edges = Inr (grouped_spec example_parser example_edges) \<and>
   map fst (grouped_spec example_parser example_edges) = [''/a'', ''/b''] \<and>
   scan_run_v2 example_parser (\<lambda>url. Resolved 404) ''example.com'' example_edges
     (Inr (''['' @ join_commas (map dead_page_text example_dead_pages) @ '']'')) \<and>
   scan_output_v2 example_parser (\<lambda>url. Resolved 404) ''example.com'' example_edges =
     Inr (''['' @ join_commas (map dead_page_text example_dead_pages) @ '']'')"
proof -
  have g: "groupedByTarget_v2 example_parser example_edges =
           Inr (grouped_spec example_parser example_edges)"
    by (simp add: groupedByTarget_v2_spec example_keys_v2(1))
  show ?thesis
    using C8_deterministic[of example_parser example_edges
        "grouped_spec example_parser example_edges" "\<lambda>url. Resolved 404" "''example.com''"
        "Inr (''['' @ join_commas (map dead_page_text example_dead_pages) @ '']'')"
        "scan_output_v2 example_parser (\<lambda>url. Resolved 404) ''example.com'' example_edges"
        "Inr (''['' @ join_commas (map dead_page_text example_dead_pages) @ '']'')"]
    by (simp add: g example_spec_v2 example_keys_v2(2))
qed

subsection \<open>Replies of the handler\<close>

lemma decimal_digits_nonempty: "decimal_digits n acc \<noteq> []"
proof (induction n acc rule: decimal_digits.induct)
  case (1 n acc)
  then show ?case by (subst decimal_digits.simps) simp
qed

lemma JSON_stringify_nonempty: "JSON_stringify j \<noteq> []"
  by (cases j) (simp_all add: JSON_stringify.simps number_text_def decimal_digits_nonempty quote_def)

lemma reply_fields:
  "headers (reply c t) = cors_headers" "resp_body (reply c t) = t" "statusCode (reply c t) = c"
  by (simp_all add: reply_def)

lemma json_object_textI: "json_object_text (JSON_stringify (JObj kvs))"
  by (auto simp: json_object_text_def)

lemma error_body_object: "json_object_text (error_body msg)"
  by (simp add: error_body_def json_object_textI)

lemma try_scan_v1_reply:
  "try_scan_v1 env ev = Inr r \<Longrightarrow> headers r = cors_headers \<and> json_object_text (resp_body r)"
  by (auto simp: try_scan_v1_def Let_def reply_fields error_body_object json_object_textI
      split: sum.splits if_splits api_result.splits)

lemma try_scan_v2_reply:
  "try_scan_v2 env ev = Inr r \<Longrightarrow> headers r = cors_headers \<and> json_object_text (resp_body r)"
  by (auto simp: try_scan_v2_def Let_def reply_fields error_body_object json_object_textI
      split: sum.splits if_splits api_result.splits)

lemma try_scan_v3_reply:
  "try_scan_v3 env cache ev = Inr (r, cache') \<Longrightarrow>
   headers r = cors_headers \<and> json_object_text (resp_body r)"
  by (auto simp: try_scan_v3_def Let_def reply_fields error_body_object json_object_textI
      rate_limit_body_def
      split: sum.splits if_splits api_result.splits)

lemma handler_v1_reply:
  "headers (handler_v1 env ev) = cors_headers \<and>
   (if httpMethod ev = ''OPTIONS'' then resp_body (handler_v1 env ev) = []
    else json_object_text (resp_body (handler_v1 env ev)))"
  using try_scan_v1_reply[of env ev]
  by (auto simp: handler_v1_def reply_fields error_body_object split: sum.splits)

lemma handler_v2_reply:
  "headers (handler_v2 env ev) = cors_headers \<and>
   (if httpMethod ev = ''OPTIONS'' then resp_body (handler_v2 env ev) = []
    else json_object_text (resp_body (handler_v2 env ev)))"
  using try_scan_v2_reply[of env ev]
  by (auto simp: handler_v2_def reply_fields error_body_object split: sum.splits)

lemma handler_v3_reply:
  "headers (fst (handler_v3 env cache ev)) = cors_headers \<and>
   (if httpMethod ev = ''OPTIONS'' then resp_body (fst (handler_v3 env cache ev)) = []
    else json_object_text (resp_body (fst (handler_v3 env cache ev))))"
  using try_scan_v3_reply[of env cache ev]
  by (auto simp: handler_v3_def reply_fields error_body_object split: sum.splits)

lemma options_body:
  "resp_body (handler_v2 env options_event) = []"
  by (simp add: handler_v2_def options_event_def reply_fields)

subsection \<open>Claim C9\<close>

text \<open>
  C9 (as amended). For every event, in all three variants, the handler returns a
  response (every throw inside its \<^verbatim>\<open>try\<close> is turned into a 500 by the
  \<^verbatim>\<open>catch\<close>) that carries the same four CORS and content-type headers. The body is
  the JSON text of an object on every path but one: the answer to an \<^verbatim>\<open>OPTIONS\<close>
  preflight has the empty string as its body.
\<close>

theorem C9_headers_and_body:
  "(headers (handler_v1 env ev) = cors_headers \<and>
    (if httpMethod ev = ''OPTIONS'' then resp_body (handler_v1 env ev) = []
     else \<exists>kvs. resp_body (handler_v1 env ev) = JSON_stringify (JObj kvs))) \<and>
   (headers (handler_v2 env ev) = cors_headers \<and>
    (if httpMethod ev = ''OPTIONS'' then resp_body (handler_v2 env ev) = []
     else \<exists>kvs. resp_body (handler_v2 env ev) = JSON_stringify (JObj kvs))) \<and>
   (headers (fst (handler_v3 env cache ev)) = cors_headers \<and>
    (if httpMethod ev = ''OPTIONS'' then resp_body (fst (handler_v3 env cache ev)) = []
     else \<exists>kvs. resp_body (fst (handler_v3 env cache ev)) = JSON_stringify (JObj kvs)))"
  using handler_v1_reply[of env ev] handler_v2_reply[of env ev] handler_v3_reply[of env cache ev]
  unfolding json_object_text_def by blast

theorem C9_headers_and_body_witness:
  "headers (handler_v2 (example_env ConnectionFailed unreachable_network) post_event) = cors_headers \<and>
   (\<exists>kvs. resp_body (handler_v2 (example_env ConnectionFailed unreachable_network) post_event)
           = JSON_stringify (JObj kvs)) \<and>
   resp_body (handler_v2 (example_env ConnectionFailed unreachable_network) options_event) = []"
  using C9_headers_and_body[of "example_env ConnectionFailed unreachable_network" post_event]
    C9_headers_and_body[of "example_env ConnectionFailed unreachable_network" options_event]
  by (simp add: post_event_def options_event_def)

text \<open>
  The claim as stated fails on the preflight path: the body of the answer to
  \<^verbatim>\<open>OPTIONS\<close> is empty, and no JSON value prints as the empty string.
\<close>

theorem C9_options_body_counterexample:
  "resp_body (handler_v2 (example_env ConnectionFailed unreachable_network) options_event) = [] \<and>
   \<not> (\<exists>j. resp_body (handler_v2 (example_env ConnectionFailed unreachable_network) options_event)
            = JSON_stringify j)"
  by (simp add: options_body JSON_stringify_nonempty[symmetric])

subsection \<open>The rate limiter of the public variant\<close>

lemma scan_v3_limited:
  assumes "scanned_domain env ev = Some D"
  shows "handler_v3 env cache ev =
    (let key = rate_limit_key D (today_of (now_at_check env)) in
     if cache key \<noteq> None then (reply 429 rate_limit_body, cache)
     else if \<not> configured env
     then (reply 500 (error_body ''API not configured''), cache)
     else
       (case callDataForSEO_v3 (URL_parse env)
               (\<lambda>url. settled (checkUrlStatus_v3 (URL_parse env) (internet env) url))
               (provider env D) of
          ApiError e \<Rightarrow> (reply 500 (error_body e), cache)
        | ApiResults results \<Rightarrow>
            (reply 200
               (JSON_stringify
                 (JObj [(''success'', JBool True), (''domain'', JStr D),
                        (''scanned_at'', JStr (now_at_reply env)),
                        (''results'', JArr (map item_json_v3 results))])),
             cache(key \<mapsto> True))))"
  using assms
  by (auto simp: scanned_domain_def handler_v3_def try_scan_v3_def Let_def
      split: sum.splits if_splits api_result.splits)

lemma scan_v3_not_limited:
  assumes "scanned_domain env ev = None"
  shows "statusCode (fst (handler_v3 env cache ev)) \<noteq> 429 \<and>
         snd (handler_v3 env cache ev) = cache"
  using assms
  by (auto simp: scanned_domain_def handler_v3_def try_scan_v3_def Let_def reply_fields
      split: sum.splits if_splits)

lemma rate_limit_key_inj: "rate_limit_key D t1 = rate_limit_key D t2 \<longleftrightarrow> t1 = t2"
  by (simp add: rate_limit_key_def)

lemma to_lower_E: "map to_lower ''https://Example.com/'' = ''https://example.com/''"
  by code_simp

lemma normalize_example: "normalize_domain ''https://Example.com/'' = ''example.com''"
  by code_simp

lemma example_scanned:
  "scanned_domain (example_env r n) post_event = Some ''example.com''"
  by (simp add: scanned_domain_def post_event_def request_domain_def body_text_def truthy_def
      to_js_string_def example_env_def example_JSON_parse_def example_request_def get_domain_def
      json_truthy_def normalized_def normalize_example JSON_stringify_nonempty)

lemma all_gone_v3:
  "settled (checkUrlStatus_v3 example_parser all_gone_network (Some ''https://example.com/a'')) = Resolved 404"
  by (simp add: checkUrlStatus_v3_def new_URL_def to_js_string_def example_parse_a head_options_v3_def
      all_gone_network_def node_accepts_def Let_def)

lemma example_results_v3_gone:
  "probe (Some ''https://example.com/a'') = Resolved 404 \<Longrightarrow>
   callDataForSEO_v3 example_parser probe (Items repeat_edges) =
     ApiResults [mark_dead_v3 example_aggregate 404]"
  by (simp add: callDataForSEO_v3_def example_grouped_v3 object_values_single js_sort_def
      example_aggregate_def)

lemma example_scan_ok:
  "statusCode (fst (handler_v3 (example_env (Items repeat_edges) all_gone_network) cache post_event)) =
     (if cache ''example.com-2026-01-15'' = None then 200 else 429)"
proof -
  let ?E = "example_env (Items repeat_edges) all_gone_network"
  have k: "rate_limit_key ''example.com'' (today_of (now_at_check ?E)) = ''example.com-2026-01-15''"
    by (simp add: rate_limit_key_def today_of_def example_env_def)
  have c: "configured ?E" by (simp add: configured_def example_env_def truthy_def)
  have r: "callDataForSEO_v3 (URL_parse ?E)
             (\<lambda>url. settled (checkUrlStatus_v3 (URL_parse ?E) (internet ?E) url))
             (provider ?E ''example.com'') = ApiResults [mark_dead_v3 example_aggregate 404]"
    using example_results_v3_gone[of "\<lambda>url. settled (checkUrlStatus_v3 example_parser all_gone_network url)"]
    by (simp add: example_env_def all_gone_v3)
  show ?thesis
    unfolding scan_v3_limited[OF example_scanned] Let_def k
    by (simp add: c r reply_fields)
qed

subsection \<open>Claim C4\<close>

text \<open>
  C4 (as amended). The check of the rate limiter is a read-only lookup, and the key is
  inserted only after the provider call has returned results. For a request that reaches
  the limiter with normalized domain \<open>D\<close>: if the key of (\<open>D\<close>, today) is present the
  answer is 429 and the cache is unchanged; if it is absent the scan is allowed, and the
  cache gains the key exactly when the scan ends with status 200 (a scan that ends with
  500 leaves the cache as it was). Hence a scan that ends with 200, followed by a request
  for the same domain on the same date, gives allowed then 429; and a request for the
  same domain on another date, whose key is absent, is allowed.
\<close>

theorem C4_rate_limit_check_then_mark:
  assumes "scanned_domain env ev = Some D"
  shows
   "(cache (rate_limit_key D (today_of (now_at_check env))) \<noteq> None \<longrightarrow>
       handler_v3 env cache ev = (reply 429 rate_limit_body, cache)) \<and>
    (cache (rate_limit_key D (today_of (now_at_check env))) = None \<longrightarrow>
       statusCode (fst (handler_v3 env cache ev)) \<noteq> 429 \<and>
       snd (handler_v3 env cache ev) =
         (if statusCode (fst (handler_v3 env cache ev)) = 200
          then cache(rate_limit_key D (today_of (now_at_check env)) \<mapsto> True)
          else cache)) \<and>
    (\<forall>env' ev'. scanned_domain env' ev' = Some D \<longrightarrow>
       (statusCode (fst (handler_v3 env cache ev)) = 200 \<and>
        today_of (now_at_check env') = today_of (now_at_check env) \<longrightarrow>
          statusCode (fst (handler_v3 env' (snd (handler_v3 env cache ev)) ev')) = 429) \<and>
       (today_of (now_at_check env') \<noteq> today_of (now_at_check env) \<and>
        cache (rate_limit_key D (today_of (now_at_check env'))) = None \<longrightarrow>
          statusCode (fst (handler_v3 env' (snd (handler_v3 env cache ev)) ev')) \<noteq> 429))"
proof -
  let ?key = "rate_limit_key D (today_of (now_at_check env))"
  let ?r = "fst (handler_v3 env cache ev)" and ?c = "snd (handler_v3 env cache ev)"
  have present: "handler_v3 env cache ev = (reply 429 rate_limit_body, cache)"
    if "cache ?key \<noteq> None"
    using that by (simp add: scan_v3_limited[OF assms] Let_def)
  have absent: "statusCode ?r \<noteq> 429 \<and>
                ?c = (if statusCode ?r = 200 then cache(?key \<mapsto> True) else cache)"
    if "cache ?key = None"
    using that
    by (simp add: scan_v3_limited[OF assms] Let_def reply_fields split: api_result.splits)
  have marked: "?c ?key \<noteq> None" if "statusCode ?r = 200"
  proof (cases "cache ?key")
    case None
    with absent that show ?thesis by simp
  next
    case (Some b)
    with present show ?thesis by simp
  qed
  have other: "?c k = None" if "k \<noteq> ?key" "cache k = None" for k
  proof (cases "cache ?key")
    case None
    with absent that show ?thesis by simp
  next
    case (Some b)
    with present that show ?thesis by simp
  qed
  have again: "statusCode (fst (handler_v3 env' ?c ev')) = 429"
    if "scanned_domain env' ev' = Some D" "statusCode ?r = 200"
       "today_of (now_at_check env') = today_of (now_at_check env)" for env' ev'
    using marked[OF that(2)] that(3)
    by (simp add: scan_v3_limited[OF that(1)] Let_def reply_fields)
  have next_day: "statusCode (fst (handler_v3 env' ?c ev')) \<noteq> 429"
    if "scanned_domain env' ev' = Some D"
       "today_of (now_at_check env') \<noteq> today_of (now_at_check env)"
       "cache (rate_limit_key D (today_of (now_at_check env'))) = None" for env' ev'
  proof -
    have "rate_limit_key D (today_of (now_at_check env')) \<noteq> ?key"
      using that(2) by (simp add: rate_limit_key_inj)
    from other[OF this that(3)] show ?thesis
      by (simp add: scan_v3_limited[OF that(1)] Let_def reply_fields split: api_result.splits)
  qed
  from present absent again next_day show ?thesis by blast
qed

theorem C4_rate_limit_check_then_mark_witness:
  "statusCode (fst (handler_v3 (example_env (Items repeat_edges) all_gone_network) Map.empty post_event)) = 200 \<and>
   statusCode (fst (handler_v3 (example_env (Items repeat_edges) all_gone_network)
      (snd (handler_v3 (example_env (Items repeat_edges) all_gone_network) Map.empty post_event))
      post_event)) = 429"
proof -
  let ?E = "example_env (Items repeat_edges) all_gone_network"
  have first: "statusCode (fst (handler_v3 ?E Map.empty post_event)) = 200"
    by (simp add: example_scan_ok)
  from C4_rate_limit_check_then_mark[where env = ?E and ev = post_event and cache = Map.empty, OF example_scanned]
  have "statusCode (fst (handler_v3 ?E Map.empty post_event)) = 200 \<and>
        today_of (now_at_check ?E) = today_of (now_at_check ?E) \<longrightarrow>
        statusCode (fst (handler_v3 ?E (snd (handler_v3 ?E Map.empty post_event)) post_event)) = 429"
    using example_scanned[of "Items repeat_edges" all_gone_network] by blast
  with first show ?thesis by simp
qed

text \<open>
  The claim as stated fails when the scan does not succeed: the provider is unreachable,
  the first request passes the check and ends with 500, the check has inserted nothing,
  and the second request for the same domain on the same date passes the check again.
\<close>

theorem C4_failed_scan_counterexample:
  "statusCode (fst (handler_v3 (example_env ConnectionFailed unreachable_network) Map.empty post_event)) = 500 \<and>
   snd (handler_v3 (example_env ConnectionFailed unreachable_network) Map.empty post_event) = Map.empty \<and>
   statusCode (fst (handler_v3 (example_env ConnectionFailed unreachable_network)
      (snd (handler_v3 (example_env ConnectionFailed unreachable_network) Map.empty post_event))
      post_event)) = 500"
proof -
  let ?E = "example_env ConnectionFailed unreachable_network"
  have c: "configured ?E" by (simp add: configured_def example_env_def truthy_def)
  have r: "callDataForSEO_v3 (URL_parse ?E)
             (\<lambda>url. settled (checkUrlStatus_v3 (URL_parse ?E) (internet ?E) url))
             (provider ?E ''example.com'') = ApiError ''Failed to connect to API''"
    by (simp add: example_env_def callDataForSEO_v3_def)
  have "handler_v3 ?E Map.empty post_event =
          (reply 500 (error_body ''Failed to connect to API''), Map.empty)"
    unfolding scan_v3_limited[OF example_scanned] Let_def by (simp add: c r)
  then show ?thesis by (simp add: reply_fields)
qed

end
